theory Spec2Isabelle
  imports Main "HOL-Library.Word" "HOL-Library.Monad_Syntax"
begin

unbundle bit_operations_syntax

section \<open>The Opus identification header codec (OpusHeader.cpp)\<close>

text \<open>
  The unit under verification is the pair \<^verbatim>\<open>ParseOpusHeader\<close> /
  \<^verbatim>\<open>WriteOpusHeader\<close> together with the static helper \<^verbatim>\<open>ReadLE16\<close> and the table
  \<^verbatim>\<open>kOpusChannelMap\<close>.

  Conventions of the embedding:
  \<^item> a \<^verbatim>\<open>uint8_t\<close> is an \<open>8 word\<close>, a \<^verbatim>\<open>uint16_t\<close>/\<^verbatim>\<open>int16_t\<close> a \<open>16 word\<close> (read signed
    with \<open>sint\<close>), a \<^verbatim>\<open>uint32_t\<close> a \<open>32 word\<close>;
  \<^item> a C \<^verbatim>\<open>int\<close> whose arithmetic matters (\<^verbatim>\<open>header.channels\<close>, the loop bound, the return
    value) is an \<open>int\<close>; every conversion to \<^verbatim>\<open>size_t\<close>, to \<^verbatim>\<open>uint8_t\<close> and back to \<^verbatim>\<open>int\<close>
    is written out (\<open>size_t_of_int\<close>, \<open>word_of_int\<close>, \<open>int_of_size_t\<close>);
  \<^item> a pointer with its size (\<^verbatim>\<open>data, data_size\<close> and \<^verbatim>\<open>output, output_size\<close>) is a byte
    list, the size being its length;
  \<^item> the parser mutates its out-parameter, so it takes the header as found and returns
    it as left, together with the returned \<^verbatim>\<open>bool\<close>;
  \<^item> the writer mutates the output buffer, so it returns the buffer as left together
    with the returned \<^verbatim>\<open>int\<close>; a store or table read outside its array is undefined
    behaviour in C++ and is the value \<open>None\<close> of the model;
  \<^item> \<^verbatim>\<open>memcpy\<close> from the address of an integer copies its object representation; the
    target is little-endian (every Android ABI), so the low byte comes first;
  \<^item> \<^verbatim>\<open>input_sample_rate\<close> is only copied byte by byte, so it is the \<open>32 word\<close> of its
    object representation;
  \<^item> \<^verbatim>\<open>size_t\<close> has 64 bits (LP64).
\<close>

type_synonym byte = "8 word"

subsection \<open>Constants\<close>

definition kMaxChannels :: int where
  "kMaxChannels = 8"

text \<open>
  \<^verbatim>\<open>kOpusChannelMap[kMaxChannels][kMaxChannels]\<close>: the initialiser lists are shorter than the
  rows, and aggregate initialisation fills the remaining elements with 0.
\<close>

definition kOpusChannelMap :: "byte list list" where
  "kOpusChannelMap =
    [[0, 0, 0, 0, 0, 0, 0, 0],
     [0, 1, 0, 0, 0, 0, 0, 0],
     [0, 2, 1, 0, 0, 0, 0, 0],
     [0, 1, 2, 3, 0, 0, 0, 0],
     [0, 4, 1, 2, 3, 0, 0, 0],
     [0, 4, 1, 2, 3, 5, 0, 0],
     [0, 4, 1, 2, 3, 5, 6, 0],
     [0, 6, 1, 2, 3, 4, 5, 7]]"

definition kOpusHeaderSize :: nat where
  "kOpusHeaderSize = 19"

definition kOpusHeaderLabelOffset :: nat where
  "kOpusHeaderLabelOffset = 0"

definition kOpusHeaderVersionOffset :: nat where
  "kOpusHeaderVersionOffset = 8"

definition kOpusHeaderChannelsOffset :: nat where
  "kOpusHeaderChannelsOffset = 9"

definition kOpusHeaderSkipSamplesOffset :: nat where
  "kOpusHeaderSkipSamplesOffset = 10"

definition kOpusHeaderSampleRateOffset :: nat where
  "kOpusHeaderSampleRateOffset = 12"

definition kOpusHeaderGainOffset :: nat where
  "kOpusHeaderGainOffset = 16"

definition kOpusHeaderChannelMappingOffset :: nat where
  "kOpusHeaderChannelMappingOffset = 18"

definition kOpusHeaderNumStreamsOffset :: nat where
  "kOpusHeaderNumStreamsOffset = 19"

definition kOpusHeaderNumCoupledStreamsOffset :: nat where
  "kOpusHeaderNumCoupledStreamsOffset = 20"

definition kOpusHeaderStreamMapOffset :: nat where
  "kOpusHeaderStreamMapOffset = 21"

definition kMaxChannelsWithDefaultLayout :: int where
  "kMaxChannelsWithDefaultLayout = 2"

text \<open>The eight characters of the string literal \<^verbatim>\<open>"OpusHead"\<close>.\<close>

definition OpusHead :: "byte list" where
  "OpusHead = [0x4F, 0x70, 0x75, 0x73, 0x48, 0x65, 0x61, 0x64]"

subsection \<open>The header structure\<close>

text \<open>
  Modelled from the spec: the declaration of \<^verbatim>\<open>struct OpusHeader\<close> (OpusHeader.h is not among
  the sources). The field names are the ones the code uses; the types are the spec's
  data model (section 3): the channel count and the two stream counts are integers,
  the pre-skip an unsigned and the gain a signed 16-bit value, the mapping family an
  unsigned 8-bit value, the stream map a sequence of bytes. The code stores up to
  \<^verbatim>\<open>kMaxChannels\<close> entries in \<^verbatim>\<open>stream_map\<close>, so the array has \<^verbatim>\<open>kMaxChannels\<close> elements
  (\<open>stream_map_storage\<close>).
\<close>

record OpusHeader =
  channels :: int
  channel_mapping :: byte
  num_streams :: int
  num_coupled :: int
  gain_db :: "16 word"
  skip_samples :: "16 word"
  stream_map :: "byte list"

definition stream_map_storage :: "OpusHeader \<Rightarrow> bool" where
  "stream_map_storage header = (int (length (stream_map header)) = kMaxChannels)"

subsection \<open>Integer conversions\<close>

text \<open>Conversion of an \<^verbatim>\<open>int\<close> (or of a sum with a \<^verbatim>\<open>size_t\<close>) to the 64-bit \<^verbatim>\<open>size_t\<close>.\<close>

definition size_t_of_int :: "int \<Rightarrow> int" where
  "size_t_of_int x = x mod 2 ^ 64"

text \<open>Conversion of a \<^verbatim>\<open>size_t\<close> to the 32-bit \<^verbatim>\<open>int\<close> that a function returns.\<close>

definition int_of_size_t :: "int \<Rightarrow> int" where
  "int_of_size_t x = (x + 2 ^ 31) mod 2 ^ 32 - 2 ^ 31"

text \<open>The object representation of a 16-bit and of a 32-bit integer, low byte first.\<close>

definition bytes_of_16 :: "16 word \<Rightarrow> byte list" where
  "bytes_of_16 w = [ucast w, ucast (drop_bit 8 w)]"

definition bytes_of_32 :: "32 word \<Rightarrow> byte list" where
  "bytes_of_32 w = [ucast w, ucast (drop_bit 8 w), ucast (drop_bit 16 w), ucast (drop_bit 24 w)]"

subsection \<open>ReadLE16\<close>

text \<open>
  \<^verbatim>\<open>read_offset + 1\<close> is computed in \<^verbatim>\<open>uint32_t\<close>. The test of line 91 is a definition of its
  own, since claims speak about it.
\<close>

definition second_byte_outside :: "byte list \<Rightarrow> 32 word \<Rightarrow> bool" where
  "second_byte_outside data read_offset = (length data \<le> unat (read_offset + 1))"

definition ReadLE16 :: "byte list \<Rightarrow> 32 word \<Rightarrow> 16 word" where
  "ReadLE16 data read_offset =
    (if second_byte_outside data read_offset then 0
     else ucast (data ! unat read_offset) OR
          push_bit 8 (ucast (data ! unat (read_offset + 1))))"

subsection \<open>ParseOpusHeader\<close>

text \<open>
  The six ways out of \<^verbatim>\<open>ParseOpusHeader\<close>: the five \<^verbatim>\<open>return false\<close> statements, in the
  order of the source (each is preceded by a log line that is compiled out), and
  \<^verbatim>\<open>return true\<close>.
  \<^item> \<open>TooShort\<close>: line 102, "Header size is too small."
  \<^item> \<open>InvalidChannelCount\<close>: line 108, "Invalid Header, bad channel count"
  \<^item> \<open>MissingStreamMap\<close>: line 116, "Invalid Header, missing stream map."
  \<^item> \<open>TruncatedStreamMap\<close>: line 128, "Invalid stream map; insufficient data for
    current channel count"
  \<^item> \<open>InconsistentStreamMap\<close>: line 134, "Inconsistent channel mapping."
\<close>

datatype parse_exit =
  TooShort | InvalidChannelCount | MissingStreamMap | TruncatedStreamMap
  | InconsistentStreamMap | Parsed

text \<open>
  The loop of lines 136-137, entered with \<open>i\<close> already done:
  \<^verbatim>\<open>for (int i = 0; i < header->channels; ++i) header->stream_map[i] = data[21 + i];\<close>
\<close>

function parse_stream_map_loop :: "byte list \<Rightarrow> int \<Rightarrow> nat \<Rightarrow> byte list \<Rightarrow> byte list" where
  "parse_stream_map_loop data n i smap =
    (if int i < n
     then parse_stream_map_loop data n (Suc i)
            (smap[i := data ! (kOpusHeaderStreamMapOffset + i)])
     else smap)"
  by pat_completeness auto
termination
  by (relation "measure (\<lambda>(data, n, i, smap). nat (n - int i))") auto

declare parse_stream_map_loop.simps [simp del]

text \<open>
  The body of \<^verbatim>\<open>ParseOpusHeader\<close>: the return statement reached and the header as the
  call leaves it. \<^verbatim>\<open>ReadLE16\<close> gets \<^verbatim>\<open>kOpusHeaderSkipSamplesOffset\<close> and
  \<^verbatim>\<open>kOpusHeaderGainOffset\<close> as \<^verbatim>\<open>uint32_t\<close>, that is 10 and 16. Each read \<^verbatim>\<open>data[i]\<close> comes
  after a test that \<open>i\<close> is below \<^verbatim>\<open>data_size\<close> (9 and 18 after the test against 19; 19, 20
  and 21 + i after the test against 21 + channels), and each store into \<^verbatim>\<open>stream_map\<close> is at
  an index below \<^verbatim>\<open>kMaxChannels\<close>.
\<close>

definition ParseOpusHeader_exit :: "byte list \<Rightarrow> OpusHeader \<Rightarrow> parse_exit \<times> OpusHeader" where
  "ParseOpusHeader_exit data header =
    (if length data < kOpusHeaderSize then (TooShort, header)
     else
       let h1 = header\<lparr>channels := uint (data ! kOpusHeaderChannelsOffset)\<rparr> in
       if channels h1 < 1 \<or> channels h1 > kMaxChannels then (InvalidChannelCount, h1)
       else
         let h2 = h1\<lparr>skip_samples := ReadLE16 data 10\<rparr>;
             h3 = h2\<lparr>gain_db := ReadLE16 data 16\<rparr>;
             h4 = h3\<lparr>channel_mapping := data ! kOpusHeaderChannelMappingOffset\<rparr>
         in
         if channel_mapping h4 = 0 then
           if channels h4 > kMaxChannelsWithDefaultLayout then (MissingStreamMap, h4)
           else
             (Parsed,
              h4\<lparr>num_streams := 1,
                 num_coupled := (if channels h4 > 1 then 1 else 0),
                 stream_map := (stream_map h4)[0 := 0, 1 := 1]\<rparr>)
         else if int (length data) < size_t_of_int (int kOpusHeaderStreamMapOffset + channels h4)
         then (TruncatedStreamMap, h4)
         else
           let h5 = h4\<lparr>num_streams := uint (data ! kOpusHeaderNumStreamsOffset)\<rparr>;
               h6 = h5\<lparr>num_coupled := uint (data ! kOpusHeaderNumCoupledStreamsOffset)\<rparr>
           in
           if num_streams h6 + num_coupled h6 \<noteq> channels h6
           then (InconsistentStreamMap, h6)
           else
             (Parsed,
              h6\<lparr>stream_map := parse_stream_map_loop data (channels h6) 0 (stream_map h6)\<rparr>))"

text \<open>What the caller of \<^verbatim>\<open>ParseOpusHeader\<close> gets: the \<^verbatim>\<open>bool\<close> and the header.\<close>

definition ParseOpusHeader :: "byte list \<Rightarrow> OpusHeader \<Rightarrow> bool \<times> OpusHeader" where
  "ParseOpusHeader data header =
    (case ParseOpusHeader_exit data header of (e, header') \<Rightarrow> (e = Parsed, header'))"

subsection \<open>WriteOpusHeader\<close>

text \<open>A store \<^verbatim>\<open>buf[i] = v\<close> and a \<^verbatim>\<open>memcpy(buf + off, src, n)\<close>; \<open>None\<close> outside the buffer.\<close>

definition store_byte :: "nat \<Rightarrow> byte \<Rightarrow> byte list \<Rightarrow> byte list option" where
  "store_byte i v buf = (if i < length buf then Some (buf[i := v]) else None)"

definition memcpy_to :: "nat \<Rightarrow> byte list \<Rightarrow> byte list \<Rightarrow> byte list option" where
  "memcpy_to off src buf =
    (if off + length src \<le> length buf
     then Some (take off buf @ src @ drop (off + length src) buf)
     else None)"

text \<open>The read \<^verbatim>\<open>kOpusChannelMap[row][col]\<close>; \<open>None\<close> outside the table.\<close>

definition kOpusChannelMap_at :: "int \<Rightarrow> int \<Rightarrow> byte option" where
  "kOpusChannelMap_at row col =
    (if 0 \<le> row \<and> row < kMaxChannels \<and> 0 \<le> col \<and> col < kMaxChannels
     then Some (kOpusChannelMap ! nat row ! nat col)
     else None)"

text \<open>
  The loop of lines 175-177, entered with \<open>i\<close> already done:
  \<^verbatim>\<open>for (int i = 0; i < header.channels; ++i)
    output[21 + i] = kOpusChannelMap[header.channels - 1][i];\<close>
\<close>

function write_stream_map_loop :: "int \<Rightarrow> nat \<Rightarrow> byte list \<Rightarrow> byte list option" where
  "write_stream_map_loop n i output =
    (if int i < n then
       (case kOpusChannelMap_at (n - 1) (int i) of
          None \<Rightarrow> None
        | Some v \<Rightarrow>
            (case store_byte (kOpusHeaderStreamMapOffset + i) v output of
               None \<Rightarrow> None
             | Some output' \<Rightarrow> write_stream_map_loop n (Suc i) output'))
     else Some output)"
  by pat_completeness auto
termination
  by (relation "measure (\<lambda>(n, i, output). nat (n - int i))") auto

declare write_stream_map_loop.simps [simp del]

text \<open>Lines 153-164: the fields every header has, up to the gain.\<close>

definition write_fixed_fields :: "OpusHeader \<Rightarrow> 32 word \<Rightarrow> byte list \<Rightarrow> byte list option" where
  "write_fixed_fields header input_sample_rate output =
    do {
      o1 \<leftarrow> memcpy_to kOpusHeaderLabelOffset OpusHead output;
      o2 \<leftarrow> store_byte kOpusHeaderVersionOffset 1 o1;
      o3 \<leftarrow> store_byte kOpusHeaderChannelsOffset (word_of_int (channels header)) o2;
      o4 \<leftarrow> memcpy_to kOpusHeaderSkipSamplesOffset (bytes_of_16 (skip_samples header)) o3;
      o5 \<leftarrow> memcpy_to kOpusHeaderSampleRateOffset (bytes_of_32 input_sample_rate) o4;
      memcpy_to kOpusHeaderGainOffset (bytes_of_16 (gain_db header)) o5
    }"

text \<open>Lines 166-182: the mapping family and, above two channels, the stream map.\<close>

definition write_channel_mapping :: "OpusHeader \<Rightarrow> byte list \<Rightarrow> (int \<times> byte list) option" where
  "write_channel_mapping header output =
    (if channels header > 2 then
       do {
         o1 \<leftarrow> store_byte kOpusHeaderChannelMappingOffset 1 output;
         o2 \<leftarrow> store_byte kOpusHeaderNumStreamsOffset (word_of_int (channels header)) o1;
         o3 \<leftarrow> store_byte kOpusHeaderNumCoupledStreamsOffset 0 o2;
         o4 \<leftarrow> write_stream_map_loop (channels header) 0 o3;
         Some (int_of_size_t
                 (size_t_of_int (int kOpusHeaderStreamMapOffset + channels header + 1)), o4)
       }
     else
       do {
         o1 \<leftarrow> store_byte kOpusHeaderChannelMappingOffset 0 output;
         Some (int_of_size_t (int kOpusHeaderChannelMappingOffset + 1), o1)
       })"

text \<open>
  \<^verbatim>\<open>WriteOpusHeader\<close>: the returned \<^verbatim>\<open>int\<close> and the output buffer as the call leaves it. The
  return of \<open>-1\<close> (line 147, "Output buffer too small for header.") comes before the
  first store.
\<close>

definition WriteOpusHeader :: "OpusHeader \<Rightarrow> 32 word \<Rightarrow> byte list \<Rightarrow> (int \<times> byte list) option" where
  "WriteOpusHeader header input_sample_rate output =
    (let total_size = size_t_of_int (int kOpusHeaderStreamMapOffset + channels header) in
     if int (length output) < total_size then Some (- 1, output)
     else
       do {
         o1 \<leftarrow> write_fixed_fields header input_sample_rate (replicate (length output) 0);
         write_channel_mapping header o1
       })"

subsection \<open>Concrete headers and buffers\<close>

text \<open>A stereo header with a pre-skip of 312 samples and a gain of \<open>-5\<close>.\<close>

definition stereo_header :: OpusHeader where
  "stereo_header =
    \<lparr>channels = 2, channel_mapping = 0, num_streams = 0, num_coupled = 0,
     gain_db = - 5, skip_samples = 312, stream_map = [0, 0, 0, 0, 0, 0, 0, 0]\<rparr>"

text \<open>A buffer of 19 zero bytes: long enough, with a channel count of 0.\<close>

definition zero_buffer :: "byte list" where
  "zero_buffer = replicate 19 0"

text \<open>A header whose fields are all zero.\<close>

definition blank_header :: OpusHeader where
  "blank_header =
    \<lparr>channels = 0, channel_mapping = 0, num_streams = 0, num_coupled = 0,
     gain_db = 0, skip_samples = 0, stream_map = replicate 8 0\<rparr>"

text \<open>
  Identification headers as they arrive from a container. All carry a pre-skip of 312
  (\<open>0x38 0x01\<close>), an input rate of 48000 Hz and a gain of \<open>-5\<close> (\<open>0xFB 0xFF\<close>).
  \<^item> \<open>stereo_bytes\<close>: 2 channels, mapping family 0;
  \<^item> \<open>surround_bytes\<close>: 3 channels, family 1, 2 streams of which 1 coupled, map 0 2 1;
  \<^item> \<open>missing_map_bytes\<close>: 3 channels with family 0;
  \<^item> \<open>truncated_map_bytes\<close>: 3 channels, family 1, cut after the two stream counts;
  \<^item> \<open>inconsistent_map_bytes\<close>: 2 channels, family 1, 2 streams of which 1 coupled.
\<close>

definition stereo_bytes :: "byte list" where
  "stereo_bytes = OpusHead @ [1, 2, 0x38, 0x01, 0x80, 0xBB, 0, 0, 0xFB, 0xFF, 0]"

definition surround_bytes :: "byte list" where
  "surround_bytes =
     OpusHead @ [1, 3, 0x38, 0x01, 0x80, 0xBB, 0, 0, 0xFB, 0xFF, 1, 2, 1, 0, 2, 1]"

definition missing_map_bytes :: "byte list" where
  "missing_map_bytes = OpusHead @ [1, 3, 0x38, 0x01, 0x80, 0xBB, 0, 0, 0xFB, 0xFF, 0]"

definition truncated_map_bytes :: "byte list" where
  "truncated_map_bytes = OpusHead @ [1, 3, 0x38, 0x01, 0x80, 0xBB, 0, 0, 0xFB, 0xFF, 1, 3, 0]"

definition inconsistent_map_bytes :: "byte list" where
  "inconsistent_map_bytes =
     OpusHead @ [1, 2, 0x38, 0x01, 0x80, 0xBB, 0, 0, 0xFB, 0xFF, 1, 2, 1, 0, 1]"

text \<open>A header for four channels, otherwise as \<open>stereo_header\<close>.\<close>

definition quad_header :: OpusHeader where
  "quad_header = stereo_header\<lparr>channels := 4\<rparr>"

subsection \<open>The layout the writer produces\<close>

text \<open>
  The 18 bytes that lines 153-164 leave at offsets 0 to 17 of a zeroed buffer, and the
  first \<open>n\<close> entries of row \<open>n - 1\<close> of the channel mapping table. Both only name
  what the theorems about \<^verbatim>\<open>WriteOpusHeader\<close> state; the writer itself is
  \<open>WriteOpusHeader\<close> above.
\<close>

definition fixed_fields :: "OpusHeader \<Rightarrow> 32 word \<Rightarrow> byte list" where
  "fixed_fields header input_sample_rate =
     OpusHead @ [1, word_of_int (channels header)] @ bytes_of_16 (skip_samples header) @
     bytes_of_32 input_sample_rate @ bytes_of_16 (gain_db header)"

definition channel_map_row :: "int \<Rightarrow> byte list" where
  "channel_map_row n = take (nat n) (kOpusChannelMap ! nat (n - 1))"

section \<open>Properties of the parser\<close>

subsection \<open>Auxiliary facts\<close>

lemmas opus_constants =
  kMaxChannels_def kOpusHeaderSize_def kOpusHeaderLabelOffset_def
  kOpusHeaderVersionOffset_def kOpusHeaderChannelsOffset_def
  kOpusHeaderSkipSamplesOffset_def kOpusHeaderSampleRateOffset_def
  kOpusHeaderGainOffset_def kOpusHeaderChannelMappingOffset_def
  kOpusHeaderNumStreamsOffset_def kOpusHeaderNumCoupledStreamsOffset_def
  kOpusHeaderStreamMapOffset_def kMaxChannelsWithDefaultLayout_def

lemma length_parse_stream_map_loop:
  "length (parse_stream_map_loop data n i smap) = length smap"
  by (induction data n i smap rule: parse_stream_map_loop.induct)
     (subst parse_stream_map_loop.simps, simp)

lemma nth_parse_stream_map_loop:
  "k < length smap \<Longrightarrow>
   parse_stream_map_loop data n i smap ! k =
     (if i \<le> k \<and> int k < n then data ! (kOpusHeaderStreamMapOffset + k) else smap ! k)"
proof (induction data n i smap rule: parse_stream_map_loop.induct)
  case (1 data n i smap)
  show ?case
  proof (cases "int i < n")
    case True
    have step: "parse_stream_map_loop data n i smap =
        parse_stream_map_loop data n (Suc i) (smap[i := data ! (kOpusHeaderStreamMapOffset + i)])"
      using True by (subst parse_stream_map_loop.simps) simp
    have ih: "parse_stream_map_loop data n (Suc i)
          (smap[i := data ! (kOpusHeaderStreamMapOffset + i)]) ! k =
        (if Suc i \<le> k \<and> int k < n then data ! (kOpusHeaderStreamMapOffset + k)
         else smap[i := data ! (kOpusHeaderStreamMapOffset + i)] ! k)"
      using 1 True by simp
    show ?thesis
    proof (cases "k = i")
      case True
      with \<open>int i < n\<close> 1(2) ih show ?thesis by (simp add: step)
    next
      case False
      then have "(Suc i \<le> k) = (i \<le> k)" by arith
      with False 1(2) ih show ?thesis by (simp add: step)
    qed
  next
    case False
    then show ?thesis
      by (subst parse_stream_map_loop.simps) auto
  qed
qed

text \<open>
  The two reads of \<^verbatim>\<open>ReadLE16\<close> are inside the buffer whenever its test lets them happen
  and \<^verbatim>\<open>read_offset + 1\<close> does not wrap around; the parser calls it with 10 and 16 only.
\<close>

lemma ReadLE16_reads_inside:
  assumes "\<not> second_byte_outside data read_offset" and "read_offset + 1 \<noteq> 0"
  shows "unat read_offset < length data \<and> unat (read_offset + 1) < length data"
proof -
  have "unat (read_offset + 1) = Suc (unat read_offset)"
    using assms(2) by (simp add: unatSuc add.commute)
  with assms(1) show ?thesis
    by (simp add: second_byte_outside_def)
qed

lemma second_byte_inside_parser:
  "kOpusHeaderSize \<le> length data \<Longrightarrow>
   \<not> second_byte_outside data 10 \<and> \<not> second_byte_outside data 16"
  by (simp add: second_byte_outside_def kOpusHeaderSize_def)

lemma take_parse_stream_map_loop:
  assumes "nat n \<le> length smap"
  shows "take (nat n) (parse_stream_map_loop data n 0 smap) =
         map (\<lambda>k. data ! (kOpusHeaderStreamMapOffset + k)) [0..<nat n]"
proof (rule nth_equalityI)
  show "length (take (nat n) (parse_stream_map_loop data n 0 smap)) =
        length (map (\<lambda>k. data ! (kOpusHeaderStreamMapOffset + k)) [0..<nat n])"
    using assms by (simp add: length_parse_stream_map_loop)
next
  fix k
  assume "k < length (take (nat n) (parse_stream_map_loop data n 0 smap))"
  then have k: "k < nat n" "k < length smap"
    using assms by (simp_all add: length_parse_stream_map_loop)
  then have "int k < n" by arith
  with k show "take (nat n) (parse_stream_map_loop data n 0 smap) ! k =
      map (\<lambda>k. data ! (kOpusHeaderStreamMapOffset + k)) [0..<nat n] ! k"
    by (simp add: nth_parse_stream_map_loop)
qed

lemma take_drop_as_map:
  "off + n \<le> length xs \<Longrightarrow> take n (drop off xs) = map (\<lambda>k. xs ! (off + k)) [0..<n]"
  by (rule nth_equalityI) simp_all

lemma blank_header_storage: "stream_map_storage blank_header"
  by (simp add: stream_map_storage_def blank_header_def kMaxChannels_def)

lemmas parse_unfold =
  ParseOpusHeader_def ParseOpusHeader_exit_def Let_def opus_constants size_t_of_int_def
  ReadLE16_def second_byte_outside_def

subsection \<open>The out-parameter on failure\<close>

text \<open>
  Claim C10. For every input buffer of at least 19 bytes, \<^verbatim>\<open>ParseOpusHeader\<close> stores the raw
  channel byte (offset 9) into the caller's header before it validates it. So the header
  is modified also when the call fails: with a channel byte of 0 or above 8 the call
  returns false and leaves that invalid count in the header, and when the stream map is
  inconsistent it returns false after it has stored the channel count, the pre-skip,
  the gain, the mapping family and both stream counts. Parsing is not atomic in its
  output.
\<close>

theorem ParseOpusHeader_output_not_atomic:
  assumes "kOpusHeaderSize \<le> length data"
  shows "channels (snd (ParseOpusHeader data header)) = uint (data ! kOpusHeaderChannelsOffset) \<and>
    (uint (data ! kOpusHeaderChannelsOffset) < 1 \<or>
     kMaxChannels < uint (data ! kOpusHeaderChannelsOffset) \<longrightarrow>
       ParseOpusHeader data header =
         (False, header\<lparr>channels := uint (data ! kOpusHeaderChannelsOffset)\<rparr>)) \<and>
    (fst (ParseOpusHeader_exit data header) = InconsistentStreamMap \<longrightarrow>
       ParseOpusHeader data header =
         (False,
          header\<lparr>channels := uint (data ! kOpusHeaderChannelsOffset),
                 skip_samples := ReadLE16 data 10,
                 gain_db := ReadLE16 data 16,
                 channel_mapping := data ! kOpusHeaderChannelMappingOffset,
                 num_streams := uint (data ! kOpusHeaderNumStreamsOffset),
                 num_coupled := uint (data ! kOpusHeaderNumCoupledStreamsOffset)\<rparr>))"
  using assms
  by (simp add: ParseOpusHeader_def ParseOpusHeader_exit_def Let_def)

theorem ParseOpusHeader_output_not_atomic_witness:
  "kOpusHeaderSize \<le> length zero_buffer \<and>
   ParseOpusHeader zero_buffer stereo_header = (False, stereo_header\<lparr>channels := 0\<rparr>) \<and>
   snd (ParseOpusHeader zero_buffer stereo_header) \<noteq> stereo_header \<and>
   kOpusHeaderSize \<le> length inconsistent_map_bytes \<and>
   fst (ParseOpusHeader_exit inconsistent_map_bytes blank_header) = InconsistentStreamMap \<and>
   ParseOpusHeader inconsistent_map_bytes blank_header =
     (False, blank_header\<lparr>channels := 2, skip_samples := 312, gain_db := - 5,
                          channel_mapping := 1, num_streams := 2, num_coupled := 1\<rparr>)"
proof -
  have len: "kOpusHeaderSize \<le> length zero_buffer"
    by (simp add: kOpusHeaderSize_def zero_buffer_def)
  have ch: "uint (zero_buffer ! kOpusHeaderChannelsOffset) = 0"
    by (simp add: kOpusHeaderChannelsOffset_def zero_buffer_def)
  from ParseOpusHeader_output_not_atomic [OF len, of stereo_header]
  have a: "ParseOpusHeader zero_buffer stereo_header = (False, stereo_header\<lparr>channels := 0\<rparr>)"
    by (simp add: ch)
  have b: "stereo_header\<lparr>channels := 0\<rparr> \<noteq> stereo_header"
    by (simp add: stereo_header_def)
  have len': "kOpusHeaderSize \<le> length inconsistent_map_bytes"
    by (simp add: kOpusHeaderSize_def inconsistent_map_bytes_def OpusHead_def)
  have e: "fst (ParseOpusHeader_exit inconsistent_map_bytes blank_header) = InconsistentStreamMap"
    by (simp add: parse_unfold inconsistent_map_bytes_def OpusHead_def)
  have v: "uint (inconsistent_map_bytes ! kOpusHeaderChannelsOffset) = 2"
    "ReadLE16 inconsistent_map_bytes 10 = 312" "ReadLE16 inconsistent_map_bytes 16 = - 5"
    "inconsistent_map_bytes ! kOpusHeaderChannelMappingOffset = 1"
    "uint (inconsistent_map_bytes ! kOpusHeaderNumStreamsOffset) = 2"
    "uint (inconsistent_map_bytes ! kOpusHeaderNumCoupledStreamsOffset) = 1"
    by (simp_all add: opus_constants ReadLE16_def second_byte_outside_def
        inconsistent_map_bytes_def OpusHead_def)
  from ParseOpusHeader_output_not_atomic [OF len', of blank_header] e
  have c: "ParseOpusHeader inconsistent_map_bytes blank_header =
     (False, blank_header\<lparr>channels := 2, skip_samples := 312, gain_db := - 5,
                          channel_mapping := 1, num_streams := 2, num_coupled := 1\<rparr>)"
    by (simp add: v)
  from len a b len' e c show ?thesis by simp
qed

subsection \<open>The lenient little-endian reads\<close>

text \<open>
  Claim C3, as stated: some input buffer passes the 19-byte length gate and still has
  its pre-skip or its gain field starved (the index of the field's second byte is at or
  beyond the buffer length), so that the field decodes as 0 while the parse succeeds.
  No such buffer exists: the second bytes are at offsets 11 and 17.
\<close>

theorem no_starved_field_counterexample:
  "\<not> (\<exists>data header.
        kOpusHeaderSize \<le> length data \<and>
        (second_byte_outside data 10 \<or> second_byte_outside data 16) \<and>
        fst (ParseOpusHeader data header))"
  using second_byte_inside_parser by blast

text \<open>
  Claim C3, amended. For every input buffer that passes the 19-byte length gate neither
  field is starved: the second bytes, at indices 11 and 17, are inside the buffer, and
  whenever the channel byte is in 1..8 the parser leaves in the header the pre-skip and
  the gain composed of their two bytes, low byte first. \<^verbatim>\<open>ReadLE16\<close> takes its lenient
  branch, the result 0 with no byte read, exactly when the index \<^verbatim>\<open>read_offset + 1\<close> of the
  second byte is at or beyond the buffer length, which no call made by the parser
  meets; otherwise it returns the two bytes combined, low byte first (0 as well when
  both bytes are 0).
\<close>

theorem ParseOpusHeader_fields_never_starved:
  assumes "kOpusHeaderSize \<le> length data"
  shows "\<not> second_byte_outside data 10 \<and> \<not> second_byte_outside data 16 \<and>
    11 < length data \<and> 17 < length data \<and>
    (1 \<le> uint (data ! kOpusHeaderChannelsOffset) \<and>
     uint (data ! kOpusHeaderChannelsOffset) \<le> kMaxChannels \<longrightarrow>
       skip_samples (snd (ParseOpusHeader data header)) =
         ucast (data ! 10) OR push_bit 8 (ucast (data ! 11)) \<and>
       gain_db (snd (ParseOpusHeader data header)) =
         ucast (data ! 16) OR push_bit 8 (ucast (data ! 17))) \<and>
    (\<forall>buf off. second_byte_outside buf off \<longrightarrow> ReadLE16 buf off = 0) \<and>
    (\<forall>buf off. second_byte_outside buf off = (length buf \<le> unat (off + 1))) \<and>
    (\<forall>buf off. \<not> second_byte_outside buf off \<longrightarrow>
       ReadLE16 buf off =
         ucast (buf ! unat off) OR push_bit 8 (ucast (buf ! unat (off + 1))))"
proof -
  note inside = second_byte_inside_parser [OF assms]
  have len: "11 < length data" "17 < length data"
    using assms by (simp_all add: kOpusHeaderSize_def)
  have rd: "ReadLE16 data 10 = ucast (data ! 10) OR push_bit 8 (ucast (data ! 11))"
    "ReadLE16 data 16 = ucast (data ! 16) OR push_bit 8 (ucast (data ! 17))"
    using inside by (simp_all add: ReadLE16_def)
  have fields: "skip_samples (snd (ParseOpusHeader data header)) = ReadLE16 data 10 \<and>
      gain_db (snd (ParseOpusHeader data header)) = ReadLE16 data 16"
    if "1 \<le> uint (data ! kOpusHeaderChannelsOffset)"
      "uint (data ! kOpusHeaderChannelsOffset) \<le> kMaxChannels"
    using assms that
    by (simp add: ParseOpusHeader_def ParseOpusHeader_exit_def Let_def)
  have guard: "\<forall>buf off. second_byte_outside buf off = (length buf \<le> unat (off + 1))"
    by (simp add: second_byte_outside_def)
  have reader: "\<forall>buf off. \<not> second_byte_outside buf off \<longrightarrow>
       ReadLE16 buf off =
         ucast (buf ! unat off) OR push_bit 8 (ucast (buf ! unat (off + 1)))"
    by (simp add: ReadLE16_def)
  have lenient: "\<forall>buf off. second_byte_outside buf off \<longrightarrow> ReadLE16 buf off = 0"
    by (simp add: ReadLE16_def)
  from inside len fields rd guard reader lenient show ?thesis
    by simp
qed

theorem ParseOpusHeader_fields_never_starved_witness:
  "kOpusHeaderSize \<le> length stereo_bytes \<and>
   1 \<le> uint (stereo_bytes ! kOpusHeaderChannelsOffset) \<and>
   uint (stereo_bytes ! kOpusHeaderChannelsOffset) \<le> kMaxChannels \<and>
   skip_samples (snd (ParseOpusHeader stereo_bytes stereo_header)) = 312 \<and>
   sint (gain_db (snd (ParseOpusHeader stereo_bytes stereo_header))) = - 5 \<and>
   second_byte_outside [7] 0 \<and> ReadLE16 [7] 0 = 0 \<and>
   \<not> second_byte_outside [0x34, 0x12] 0 \<and> ReadLE16 [0x34, 0x12] 0 = 0x1234 \<and>
   \<not> second_byte_outside [0, 0] 0 \<and> ReadLE16 [0, 0] 0 = 0"
proof -
  have len: "kOpusHeaderSize \<le> length stereo_bytes"
    by (simp add: kOpusHeaderSize_def stereo_bytes_def OpusHead_def)
  have ch: "uint (stereo_bytes ! kOpusHeaderChannelsOffset) = 2"
    by (simp add: kOpusHeaderChannelsOffset_def stereo_bytes_def OpusHead_def)
  note t = ParseOpusHeader_fields_never_starved [OF len, of stereo_header]
  have b10: "ucast (stereo_bytes ! 10) OR push_bit 8 (ucast (stereo_bytes ! 11)) = (312 :: 16 word)"
    by (simp add: stereo_bytes_def OpusHead_def)
  have b16: "ucast (stereo_bytes ! 16) OR push_bit 8 (ucast (stereo_bytes ! 17)) = (- 5 :: 16 word)"
    by (simp add: stereo_bytes_def OpusHead_def)
  have parsed: "skip_samples (snd (ParseOpusHeader stereo_bytes stereo_header)) = 312 \<and>
      gain_db (snd (ParseOpusHeader stereo_bytes stereo_header)) = - 5"
    using t by (simp add: ch kMaxChannels_def b10 b16)
  from t have guard: "\<And>buf off. second_byte_outside buf off = (length buf \<le> unat (off + 1))"
    and reader: "\<And>buf off. \<not> second_byte_outside buf off \<Longrightarrow>
       ReadLE16 buf off = ucast (buf ! unat off) OR push_bit 8 (ucast (buf ! unat (off + 1)))"
    and lenient: "\<And>buf off. second_byte_outside buf off \<Longrightarrow> ReadLE16 buf off = 0"
    by blast+
  have o1: "second_byte_outside [7] 0"
    and i2: "\<not> second_byte_outside [0x34, 0x12] 0"
    and i3: "\<not> second_byte_outside [0, 0] 0"
    by (simp_all add: guard)
  have r1: "ReadLE16 [7] 0 = 0"
    using o1 by (rule lenient)
  have r2: "ReadLE16 [0x34, 0x12] 0 = 0x1234"
    using reader [OF i2] by simp
  have r3: "ReadLE16 [0, 0] 0 = 0"
    using reader [OF i3] by simp
  from len parsed o1 i2 i3 r1 r2 r3 show ?thesis
    by (simp add: ch kMaxChannels_def)
qed

subsection \<open>The failure value\<close>

text \<open>
  Claim C4, as stated: the five causes of rejection reach the caller as mutually
  distinguishable failure values. They do not: five buffers that fail for the five
  causes all return false, and the first two leave even the same header behind.
\<close>

theorem failure_values_coincide_counterexample:
  "fst (ParseOpusHeader_exit [] blank_header) = TooShort \<and>
   fst (ParseOpusHeader_exit zero_buffer blank_header) = InvalidChannelCount \<and>
   fst (ParseOpusHeader_exit missing_map_bytes blank_header) = MissingStreamMap \<and>
   fst (ParseOpusHeader_exit truncated_map_bytes blank_header) = TruncatedStreamMap \<and>
   fst (ParseOpusHeader_exit inconsistent_map_bytes blank_header) = InconsistentStreamMap \<and>
   ParseOpusHeader [] blank_header = ParseOpusHeader zero_buffer blank_header \<and>
   fst (ParseOpusHeader zero_buffer blank_header) =
     fst (ParseOpusHeader missing_map_bytes blank_header) \<and>
   fst (ParseOpusHeader missing_map_bytes blank_header) =
     fst (ParseOpusHeader truncated_map_bytes blank_header) \<and>
   fst (ParseOpusHeader truncated_map_bytes blank_header) =
     fst (ParseOpusHeader inconsistent_map_bytes blank_header)"
  by (simp add: parse_unfold blank_header_def zero_buffer_def missing_map_bytes_def
      truncated_map_bytes_def inconsistent_map_bytes_def OpusHead_def)

text \<open>
  Claim C4, amended. \<^verbatim>\<open>ParseOpusHeader\<close> reports every rejection by the one value false,
  whichever of the five causes applies. It returns true exactly when the buffer has at
  least 19 bytes, the channel byte is in 1..8, and either the family byte is 0 and there
  are at most 2 channels, or the family byte is not 0, the buffer has at least 21 bytes
  more than channels, and the bytes at offsets 19 and 20 add up to the channel count.
\<close>

theorem ParseOpusHeader_returns_one_failure_value:
  "fst (ParseOpusHeader data header) =
     (kOpusHeaderSize \<le> length data \<and>
      1 \<le> uint (data ! kOpusHeaderChannelsOffset) \<and>
      uint (data ! kOpusHeaderChannelsOffset) \<le> kMaxChannels \<and>
      (if data ! kOpusHeaderChannelMappingOffset = 0
       then uint (data ! kOpusHeaderChannelsOffset) \<le> kMaxChannelsWithDefaultLayout
       else int kOpusHeaderStreamMapOffset + uint (data ! kOpusHeaderChannelsOffset)
              \<le> int (length data) \<and>
            uint (data ! kOpusHeaderNumStreamsOffset) +
            uint (data ! kOpusHeaderNumCoupledStreamsOffset) =
              uint (data ! kOpusHeaderChannelsOffset))) \<and>
   (fst (ParseOpusHeader data header) = False) =
     (fst (ParseOpusHeader_exit data header) \<in>
        {TooShort, InvalidChannelCount, MissingStreamMap, TruncatedStreamMap,
         InconsistentStreamMap})"
  by (auto simp add: ParseOpusHeader_def ParseOpusHeader_exit_def Let_def opus_constants
      size_t_of_int_def)

theorem ParseOpusHeader_returns_one_failure_value_witness:
  "fst (ParseOpusHeader stereo_bytes blank_header) \<and>
   \<not> fst (ParseOpusHeader inconsistent_map_bytes blank_header) \<and>
   fst (ParseOpusHeader_exit inconsistent_map_bytes blank_header) = InconsistentStreamMap"
proof -
  have a: "fst (ParseOpusHeader stereo_bytes blank_header)"
    using ParseOpusHeader_returns_one_failure_value [of stereo_bytes blank_header]
    by (simp add: opus_constants stereo_bytes_def OpusHead_def)
  have b: "\<not> fst (ParseOpusHeader inconsistent_map_bytes blank_header)"
    using ParseOpusHeader_returns_one_failure_value [of inconsistent_map_bytes blank_header]
    by (simp add: opus_constants inconsistent_map_bytes_def OpusHead_def)
  have c: "fst (ParseOpusHeader_exit inconsistent_map_bytes blank_header) = InconsistentStreamMap"
    by (simp add: parse_unfold inconsistent_map_bytes_def OpusHead_def)
  from a b c show ?thesis by simp
qed

subsection \<open>The mapping family\<close>

text \<open>
  Claim C6. For every buffer of at least 19 bytes whose channel byte is in 1..8 (and a
  header whose stream map has its 8 elements), the byte at offset 18 decides: if it is 0
  and there are more than 2 channels the parse fails (missing stream map); if it is 0
  and there are at most 2 channels the parse succeeds with 1 stream, 1 coupled stream
  for 2 channels and none for 1, and the first two entries of the stream map set to 0
  and 1; if it is not 0 the parse fails when the buffer has fewer than 21 bytes more
  than channels (truncated stream map), fails otherwise when the bytes at offsets 19
  and 20 do not add up to the channel count (inconsistent stream map), and otherwise
  succeeds with these two bytes as stream counts and the bytes from offset 21, as many as
  channels, copied into the stream map.
\<close>

theorem ParseOpusHeader_mapping_family:
  assumes "kOpusHeaderSize \<le> length data"
    and "1 \<le> uint (data ! kOpusHeaderChannelsOffset)"
    and "uint (data ! kOpusHeaderChannelsOffset) \<le> kMaxChannels"
    and "stream_map_storage header"
  shows
   "(data ! kOpusHeaderChannelMappingOffset = 0 \<and>
     2 < uint (data ! kOpusHeaderChannelsOffset) \<longrightarrow>
       fst (ParseOpusHeader_exit data header) = MissingStreamMap \<and>
       \<not> fst (ParseOpusHeader data header)) \<and>
    (data ! kOpusHeaderChannelMappingOffset = 0 \<and>
     uint (data ! kOpusHeaderChannelsOffset) \<le> 2 \<longrightarrow>
       fst (ParseOpusHeader data header) \<and>
       num_streams (snd (ParseOpusHeader data header)) = 1 \<and>
       num_coupled (snd (ParseOpusHeader data header)) =
         (if 1 < uint (data ! kOpusHeaderChannelsOffset) then 1 else 0) \<and>
       take 2 (stream_map (snd (ParseOpusHeader data header))) = [0, 1]) \<and>
    (data ! kOpusHeaderChannelMappingOffset \<noteq> 0 \<and>
     int (length data) < 21 + uint (data ! kOpusHeaderChannelsOffset) \<longrightarrow>
       fst (ParseOpusHeader_exit data header) = TruncatedStreamMap \<and>
       \<not> fst (ParseOpusHeader data header)) \<and>
    (data ! kOpusHeaderChannelMappingOffset \<noteq> 0 \<and>
     21 + uint (data ! kOpusHeaderChannelsOffset) \<le> int (length data) \<and>
     uint (data ! 19) + uint (data ! 20) \<noteq> uint (data ! kOpusHeaderChannelsOffset) \<longrightarrow>
       fst (ParseOpusHeader_exit data header) = InconsistentStreamMap \<and>
       \<not> fst (ParseOpusHeader data header)) \<and>
    (data ! kOpusHeaderChannelMappingOffset \<noteq> 0 \<and>
     21 + uint (data ! kOpusHeaderChannelsOffset) \<le> int (length data) \<and>
     uint (data ! 19) + uint (data ! 20) = uint (data ! kOpusHeaderChannelsOffset) \<longrightarrow>
       fst (ParseOpusHeader data header) \<and>
       num_streams (snd (ParseOpusHeader data header)) = uint (data ! 19) \<and>
       num_coupled (snd (ParseOpusHeader data header)) = uint (data ! 20) \<and>
       take (nat (uint (data ! kOpusHeaderChannelsOffset)))
            (stream_map (snd (ParseOpusHeader data header))) =
       take (nat (uint (data ! kOpusHeaderChannelsOffset))) (drop 21 data))"
proof -
  let ?ch = "uint (data ! kOpusHeaderChannelsOffset)"
  have sz: "size_t_of_int (int kOpusHeaderStreamMapOffset + ?ch) = 21 + ?ch"
    using assms(2,3) by (simp add: size_t_of_int_def kOpusHeaderStreamMapOffset_def kMaxChannels_def)
  have len8: "length (stream_map header) = 8"
    using assms(4) by (simp add: stream_map_storage_def kMaxChannels_def)
  have missing: "fst (ParseOpusHeader_exit data header) = MissingStreamMap \<and>
       \<not> fst (ParseOpusHeader data header)"
    if "data ! kOpusHeaderChannelMappingOffset = 0" "2 < ?ch"
    using assms(1-3) that
    by (simp add: ParseOpusHeader_def ParseOpusHeader_exit_def Let_def kMaxChannelsWithDefaultLayout_def)
  have default: "fst (ParseOpusHeader data header) \<and>
       num_streams (snd (ParseOpusHeader data header)) = 1 \<and>
       num_coupled (snd (ParseOpusHeader data header)) = (if 1 < ?ch then 1 else 0) \<and>
       take 2 (stream_map (snd (ParseOpusHeader data header))) = [0, 1]"
    if "data ! kOpusHeaderChannelMappingOffset = 0" "?ch \<le> 2"
  proof -
    obtain a r where r: "stream_map header = a # r"
      using len8 by (cases "stream_map header") auto
    obtain b r' where r': "r = b # r'"
      using len8 r by (cases r) auto
    have "take 2 ((stream_map header)[0 := 0, 1 := 1]) = [0, 1]"
      by (simp add: r r' numeral_2_eq_2)
    then show ?thesis
      using assms(1-3) that
      by (simp add: ParseOpusHeader_def ParseOpusHeader_exit_def Let_def kMaxChannelsWithDefaultLayout_def)
  qed
  have truncated: "fst (ParseOpusHeader_exit data header) = TruncatedStreamMap \<and>
       \<not> fst (ParseOpusHeader data header)"
    if "data ! kOpusHeaderChannelMappingOffset \<noteq> 0" "int (length data) < 21 + ?ch"
    using assms(1-3) that
    by (simp add: ParseOpusHeader_def ParseOpusHeader_exit_def Let_def sz)
  have inconsistent: "fst (ParseOpusHeader_exit data header) = InconsistentStreamMap \<and>
       \<not> fst (ParseOpusHeader data header)"
    if "data ! kOpusHeaderChannelMappingOffset \<noteq> 0" "21 + ?ch \<le> int (length data)"
      "uint (data ! 19) + uint (data ! 20) \<noteq> ?ch"
    using assms(1-3) that
    by (simp add: ParseOpusHeader_def ParseOpusHeader_exit_def Let_def sz
        kOpusHeaderNumStreamsOffset_def kOpusHeaderNumCoupledStreamsOffset_def)
  have explicit: "fst (ParseOpusHeader data header) \<and>
       num_streams (snd (ParseOpusHeader data header)) = uint (data ! 19) \<and>
       num_coupled (snd (ParseOpusHeader data header)) = uint (data ! 20) \<and>
       take (nat ?ch) (stream_map (snd (ParseOpusHeader data header))) =
       take (nat ?ch) (drop 21 data)"
    if "data ! kOpusHeaderChannelMappingOffset \<noteq> 0" "21 + ?ch \<le> int (length data)"
      "uint (data ! 19) + uint (data ! 20) = ?ch"
  proof -
    have fit: "nat ?ch \<le> length (stream_map header)"
      using assms(3) len8 unfolding kMaxChannels_def by arith
    have "21 + nat ?ch \<le> length data"
      using that(2) assms(2) by arith
    then have "take (nat ?ch) (drop 21 data) = map (\<lambda>k. data ! (21 + k)) [0..<nat ?ch]"
      by (rule take_drop_as_map)
    moreover have "take (nat ?ch) (parse_stream_map_loop data ?ch 0 (stream_map header)) =
        map (\<lambda>k. data ! (21 + k)) [0..<nat ?ch]"
      using take_parse_stream_map_loop [OF fit, of data]
      by (simp add: kOpusHeaderStreamMapOffset_def)
    ultimately show ?thesis
      using assms(1-3) that
      by (simp add: ParseOpusHeader_def ParseOpusHeader_exit_def Let_def sz
        kOpusHeaderNumStreamsOffset_def kOpusHeaderNumCoupledStreamsOffset_def)
  qed
  from missing default truncated inconsistent explicit show ?thesis by blast
qed

theorem ParseOpusHeader_mapping_family_witness:
  "kOpusHeaderSize \<le> length surround_bytes \<and>
   1 \<le> uint (surround_bytes ! kOpusHeaderChannelsOffset) \<and>
   uint (surround_bytes ! kOpusHeaderChannelsOffset) \<le> kMaxChannels \<and>
   stream_map_storage blank_header \<and>
   fst (ParseOpusHeader surround_bytes blank_header) \<and>
   num_streams (snd (ParseOpusHeader surround_bytes blank_header)) = 2 \<and>
   num_coupled (snd (ParseOpusHeader surround_bytes blank_header)) = 1 \<and>
   take 3 (stream_map (snd (ParseOpusHeader surround_bytes blank_header))) = [0, 2, 1] \<and>
   fst (ParseOpusHeader stereo_bytes blank_header) \<and>
   num_coupled (snd (ParseOpusHeader stereo_bytes blank_header)) = 1 \<and>
   take 2 (stream_map (snd (ParseOpusHeader stereo_bytes blank_header))) = [0, 1] \<and>
   fst (ParseOpusHeader_exit missing_map_bytes blank_header) = MissingStreamMap \<and>
   fst (ParseOpusHeader_exit truncated_map_bytes blank_header) = TruncatedStreamMap \<and>
   fst (ParseOpusHeader_exit inconsistent_map_bytes blank_header) = InconsistentStreamMap"
proof -
  note st = blank_header_storage
  have s1: "kOpusHeaderSize \<le> length surround_bytes"
    and s2: "uint (surround_bytes ! kOpusHeaderChannelsOffset) = 3"
    and s3: "surround_bytes ! kOpusHeaderChannelMappingOffset = 1"
    and s4: "surround_bytes ! 19 = 2" "surround_bytes ! 20 = 1" "length surround_bytes = 24"
      "drop 21 surround_bytes = [0, 2, 1]"
    by (simp_all add: opus_constants surround_bytes_def OpusHead_def)
  have surround: "fst (ParseOpusHeader surround_bytes blank_header) \<and>
      num_streams (snd (ParseOpusHeader surround_bytes blank_header)) = 2 \<and>
      num_coupled (snd (ParseOpusHeader surround_bytes blank_header)) = 1 \<and>
      take 3 (stream_map (snd (ParseOpusHeader surround_bytes blank_header))) = [0, 2, 1]"
    using ParseOpusHeader_mapping_family [OF s1 _ _ st]
    by (simp add: s2 s3 s4 kMaxChannels_def)
  have t1: "kOpusHeaderSize \<le> length stereo_bytes"
    and t2: "uint (stereo_bytes ! kOpusHeaderChannelsOffset) = 2"
    and t3: "stereo_bytes ! kOpusHeaderChannelMappingOffset = 0"
    by (simp_all add: opus_constants stereo_bytes_def OpusHead_def)
  have stereo: "fst (ParseOpusHeader stereo_bytes blank_header) \<and>
      num_coupled (snd (ParseOpusHeader stereo_bytes blank_header)) = 1 \<and>
      take 2 (stream_map (snd (ParseOpusHeader stereo_bytes blank_header))) = [0, 1]"
    using ParseOpusHeader_mapping_family [OF t1 _ _ st]
    by (simp add: t2 t3 kMaxChannels_def)
  have m1: "kOpusHeaderSize \<le> length missing_map_bytes"
    and m2: "uint (missing_map_bytes ! kOpusHeaderChannelsOffset) = 3"
    and m3: "missing_map_bytes ! kOpusHeaderChannelMappingOffset = 0"
    by (simp_all add: opus_constants missing_map_bytes_def OpusHead_def)
  have missing: "fst (ParseOpusHeader_exit missing_map_bytes blank_header) = MissingStreamMap"
    using ParseOpusHeader_mapping_family [OF m1 _ _ st]
    by (simp add: m2 m3 kMaxChannels_def)
  have u1: "kOpusHeaderSize \<le> length truncated_map_bytes"
    and u2: "uint (truncated_map_bytes ! kOpusHeaderChannelsOffset) = 3"
    and u3: "truncated_map_bytes ! kOpusHeaderChannelMappingOffset = 1"
    and u4: "length truncated_map_bytes = 21"
    by (simp_all add: opus_constants truncated_map_bytes_def OpusHead_def)
  have truncated: "fst (ParseOpusHeader_exit truncated_map_bytes blank_header) = TruncatedStreamMap"
    using ParseOpusHeader_mapping_family [OF u1 _ _ st]
    by (simp add: u2 u3 u4 kMaxChannels_def)
  have i1: "kOpusHeaderSize \<le> length inconsistent_map_bytes"
    and i2: "uint (inconsistent_map_bytes ! kOpusHeaderChannelsOffset) = 2"
    and i3: "inconsistent_map_bytes ! kOpusHeaderChannelMappingOffset = 1"
    and i4: "inconsistent_map_bytes ! 19 = 2" "inconsistent_map_bytes ! 20 = 1"
      "length inconsistent_map_bytes = 23"
    by (simp_all add: opus_constants inconsistent_map_bytes_def OpusHead_def)
  have inconsistent:
    "fst (ParseOpusHeader_exit inconsistent_map_bytes blank_header) = InconsistentStreamMap"
    using ParseOpusHeader_mapping_family [OF i1 _ _ st]
    by (simp add: i2 i3 i4 kMaxChannels_def)
  from s1 st surround stereo missing truncated inconsistent show ?thesis
    by (simp add: s2 kMaxChannels_def)
qed

section \<open>Properties of the writer\<close>

subsection \<open>Auxiliary facts: the stores\<close>

lemma length_fixed_fields: "length (fixed_fields header rate) = 18"
  by (simp add: fixed_fields_def OpusHead_def bytes_of_16_def bytes_of_32_def)

lemma replicate_18_split:
  "18 \<le> n \<Longrightarrow> replicate n (0::byte) = replicate 18 0 @ replicate (n - 18) 0"
  by (simp flip: replicate_add)

lemma write_fixed_fields_zeroed:
  assumes "18 \<le> n"
  shows "write_fixed_fields header rate (replicate n 0) =
         Some (fixed_fields header rate @ replicate (n - 18) 0)"
proof -
  have r: "replicate 18 (0::byte) = [0,0,0,0,0,0,0,0,0,0,0,0,0,0,0,0,0,0]"
    by (simp add: numeral_eq_Suc)
  show ?thesis
    unfolding replicate_18_split [OF assms] r
    by (simp add: write_fixed_fields_def fixed_fields_def memcpy_to_def store_byte_def
        opus_constants OpusHead_def bytes_of_16_def bytes_of_32_def)
qed

lemma memcpy_to_Some:
  "memcpy_to off src buf = Some buf' \<Longrightarrow> length buf' = length buf \<and> off + length src \<le> length buf"
  by (auto simp: memcpy_to_def split: if_splits)

lemma store_byte_Some:
  "store_byte i v buf = Some buf' \<Longrightarrow> length buf' = length buf \<and> i < length buf"
  by (auto simp: store_byte_def split: if_splits)

lemma write_fixed_fields_Some:
  assumes "write_fixed_fields header rate buf = Some buf'"
  shows "length buf' = length buf \<and> 18 \<le> length buf"
proof -
  from assms obtain o1 o2 o3 o4 o5 where
    s1: "memcpy_to kOpusHeaderLabelOffset OpusHead buf = Some o1" and
    s2: "store_byte kOpusHeaderVersionOffset 1 o1 = Some o2" and
    s3: "store_byte kOpusHeaderChannelsOffset (word_of_int (channels header)) o2 = Some o3" and
    s4: "memcpy_to kOpusHeaderSkipSamplesOffset (bytes_of_16 (skip_samples header)) o3 = Some o4" and
    s5: "memcpy_to kOpusHeaderSampleRateOffset (bytes_of_32 rate) o4 = Some o5" and
    s6: "memcpy_to kOpusHeaderGainOffset (bytes_of_16 (gain_db header)) o5 = Some buf'"
    unfolding write_fixed_fields_def by (auto simp: Option.bind_eq_Some_conv)
  note l = memcpy_to_Some [OF s1] store_byte_Some [OF s2] store_byte_Some [OF s3]
    memcpy_to_Some [OF s4] memcpy_to_Some [OF s5] memcpy_to_Some [OF s6]
  from l show ?thesis
    by (simp add: kOpusHeaderGainOffset_def bytes_of_16_def)
qed

lemma kOpusChannelMap_at_inside:
  "0 \<le> r \<Longrightarrow> r < 8 \<Longrightarrow> c < 8 \<Longrightarrow>
   kOpusChannelMap_at r (int c) = Some (kOpusChannelMap ! nat r ! c)"
  by (simp add: kOpusChannelMap_at_def kMaxChannels_def)

lemma kOpusChannelMap_at_outside:
  "8 \<le> r \<Longrightarrow> kOpusChannelMap_at r c = None"
  by (simp add: kOpusChannelMap_at_def kMaxChannels_def)

lemma write_stream_map_loop_done:
  "n \<le> int i \<Longrightarrow> write_stream_map_loop n i out = Some out"
  by (subst write_stream_map_loop.simps) simp

lemma write_stream_map_loop_step:
  assumes "int i < n" "n \<le> 8" "21 + i < length out"
  shows "write_stream_map_loop n i out =
         write_stream_map_loop n (Suc i) (out[21 + i := kOpusChannelMap ! nat (n - 1) ! i])"
proof -
  have "kOpusChannelMap_at (n - 1) (int i) = Some (kOpusChannelMap ! nat (n - 1) ! i)"
    using assms by (intro kOpusChannelMap_at_inside) auto
  then show ?thesis
    using assms
    by (subst write_stream_map_loop.simps)
       (simp add: store_byte_def kOpusHeaderStreamMapOffset_def)
qed

lemma write_stream_map_loop_outside:
  assumes "8 < n"
  shows "write_stream_map_loop n 0 out = None"
  using assms
  by (subst write_stream_map_loop.simps) (simp add: kOpusChannelMap_at_outside)

lemma write_stream_map_loop_fits:
  assumes "n \<le> 8" "21 + nat n \<le> length out" "i \<le> nat n"
  shows "write_stream_map_loop n i out =
         Some (take (21 + i) out @ map (\<lambda>k. kOpusChannelMap ! nat (n - 1) ! k) [i..<nat n] @
               drop (21 + nat n) out)"
  using assms
proof (induction "nat n - i" arbitrary: i out)
  case 0
  then have "i = nat n" by simp
  then have "n \<le> int i" by simp
  then show ?case
    using \<open>i = nat n\<close> by (simp add: write_stream_map_loop_done)
next
  case (Suc d)
  let ?v = "kOpusChannelMap ! nat (n - 1) ! i"
  from Suc have lt: "i < nat n" by simp
  then have lt': "int i < n" by simp
  have inb: "21 + i < length out" using lt Suc.prems by simp
  have step: "write_stream_map_loop n i out = write_stream_map_loop n (Suc i) (out[21 + i := ?v])"
    using lt' Suc.prems(1) inb by (rule write_stream_map_loop_step)
  have d: "d = nat n - Suc i" using Suc.hyps(2) by simp
  have ih: "write_stream_map_loop n (Suc i) (out[21 + i := ?v]) =
      Some (take (21 + Suc i) (out[21 + i := ?v]) @
            map (\<lambda>k. kOpusChannelMap ! nat (n - 1) ! k) [Suc i..<nat n] @
            drop (21 + nat n) (out[21 + i := ?v]))"
    using Suc.hyps(1) [OF d] Suc.prems lt by simp
  have "take (Suc (21 + i)) (out[21 + i := ?v]) =
      take (21 + i) (out[21 + i := ?v]) @ [out[21 + i := ?v] ! (21 + i)]"
    using inb by (intro take_Suc_conv_app_nth) simp
  then have t: "take (21 + Suc i) (out[21 + i := ?v]) = take (21 + i) out @ [?v]"
    using inb by simp
  have dr: "drop (21 + nat n) (out[21 + i := ?v]) = drop (21 + nat n) out"
    using lt by simp
  have u: "[i..<nat n] = i # [Suc i..<nat n]"
    using lt by (simp add: upt_conv_Cons)
  show ?case
    unfolding step ih t dr u by simp
qed

lemma length_kOpusChannelMap_row:
  assumes "r < 8"
  shows "length (kOpusChannelMap ! r) = 8"
proof -
  from assms have "r = 0 \<or> r = 1 \<or> r = 2 \<or> r = 3 \<or> r = 4 \<or> r = 5 \<or> r = 6 \<or> r = 7"
    by arith
  then show ?thesis
    by (elim disjE) (simp_all add: kOpusChannelMap_def)
qed

lemma map_nth_take: "n \<le> length xs \<Longrightarrow> map (\<lambda>k. xs ! k) [0..<n] = take n xs"
  by (rule nth_equalityI) simp_all

lemma channel_map_row_loop:
  assumes "1 \<le> n" "n \<le> 8"
  shows "map (\<lambda>k. kOpusChannelMap ! nat (n - 1) ! k) [0..<nat n] = channel_map_row n"
    and "length (channel_map_row n) = nat n"
proof -
  have "nat (n - 1) < 8" using assms by arith
  then have len: "length (kOpusChannelMap ! nat (n - 1)) = 8"
    by (rule length_kOpusChannelMap_row)
  then have le: "nat n \<le> length (kOpusChannelMap ! nat (n - 1))"
    using assms by simp
  show "map (\<lambda>k. kOpusChannelMap ! nat (n - 1) ! k) [0..<nat n] = channel_map_row n"
    unfolding channel_map_row_def using le by (rule map_nth_take)
  show "length (channel_map_row n) = nat n"
    unfolding channel_map_row_def using le by simp
qed

lemma write_channel_mapping_few:
  assumes "channels header \<le> 2" "1 \<le> m" "length pre = 18"
  shows "write_channel_mapping header (pre @ replicate m 0) = Some (19, pre @ replicate m 0)"
proof -
  have "(pre @ replicate m 0) ! 18 = (0::byte)"
    using assms by (simp add: nth_append)
  then have "(pre @ replicate m (0::byte))[18 := 0] = pre @ replicate m 0"
    by (metis list_update_id)
  then show ?thesis
    using assms
    by (simp add: write_channel_mapping_def store_byte_def kOpusHeaderChannelMappingOffset_def
        int_of_size_t_def)
qed

lemma write_channel_mapping_many:
  assumes "3 \<le> channels header" "channels header \<le> 8" "3 + nat (channels header) \<le> m"
    "length pre = 18"
  shows "write_channel_mapping header (pre @ replicate m 0) =
    Some (22 + channels header,
          pre @ [1, word_of_int (channels header), 0] @ channel_map_row (channels header) @
          replicate (m - 3 - nat (channels header)) 0)"
proof -
  let ?n = "channels header"
  let ?c = "word_of_int ?n :: byte"
  obtain m' where m: "m = 3 + m'" and m': "nat ?n \<le> m'"
    using assms(3) by (intro that [of "m - 3"]) simp_all
  have split: "replicate m (0::byte) = [0, 0, 0] @ replicate m' 0"
    unfolding m by (simp add: numeral_3_eq_3)
  let ?o3 = "pre @ [1, ?c, 0] @ replicate m' 0"
  have stores:
    "store_byte 18 1 (pre @ replicate m 0) = Some (pre @ [1, 0, 0] @ replicate m' 0)"
    "store_byte 19 ?c (pre @ [1, 0, 0] @ replicate m' 0) = Some (pre @ [1, ?c, 0] @ replicate m' 0)"
    "store_byte 20 0 (pre @ [1, ?c, 0] @ replicate m' 0) = Some ?o3"
    using assms(4) by (simp_all add: store_byte_def split list_update_append)
  have len: "21 + nat ?n \<le> length ?o3"
    using assms(4) m' by simp
  have row: "map (\<lambda>k. kOpusChannelMap ! nat (?n - 1) ! k) [0..<nat ?n] = channel_map_row ?n"
    by (rule channel_map_row_loop) (use assms in simp_all)
  have t: "take (21 + 0) ?o3 = pre @ [1, ?c, 0]"
    using assms(4) by simp
  have "drop (3 + nat ?n) ([1, ?c, 0] @ replicate m' 0) = replicate (m' - nat ?n) 0"
    using m' by (simp add: numeral_3_eq_3)
  then have d: "drop (21 + nat ?n) ?o3 = replicate (m - 3 - nat ?n) 0"
    using assms(4) by (simp add: m)
  have "write_stream_map_loop ?n 0 ?o3 =
      Some (take (21 + 0) ?o3 @ map (\<lambda>k. kOpusChannelMap ! nat (?n - 1) ! k) [0..<nat ?n] @
            drop (21 + nat ?n) ?o3)"
    by (rule write_stream_map_loop_fits [OF assms(2) len]) simp
  then have loop: "write_stream_map_loop ?n 0 ?o3 =
      Some ((pre @ [1, ?c, 0]) @ channel_map_row ?n @ replicate (m - 3 - nat ?n) 0)"
    by (simp only: row t d)
  have ret: "int_of_size_t (size_t_of_int (int 21 + ?n + 1)) = 22 + ?n"
    using assms(1,2) by (simp add: int_of_size_t_def size_t_of_int_def)
  have gt: "?n > 2" using assms(1) by simp
  show ?thesis
    unfolding write_channel_mapping_def kOpusHeaderChannelMappingOffset_def
      kOpusHeaderNumStreamsOffset_def kOpusHeaderNumCoupledStreamsOffset_def
      kOpusHeaderStreamMapOffset_def
    by (simp only: gt if_True stores Option.bind.simps loop ret append_assoc)
qed

subsection \<open>Auxiliary facts: the result of a call\<close>

lemma WriteOpusHeader_too_small:
  "int (length out) < size_t_of_int (21 + channels header) \<Longrightarrow>
   WriteOpusHeader header rate out = Some (- 1, out)"
  by (simp add: WriteOpusHeader_def kOpusHeaderStreamMapOffset_def)

lemma WriteOpusHeader_few:
  assumes "channels header \<le> 2"
    and "size_t_of_int (21 + channels header) \<le> int (length out)"
    and "19 \<le> length out"
  shows "WriteOpusHeader header rate out =
         Some (19, fixed_fields header rate @ replicate (length out - 18) 0)"
proof -
  have "write_fixed_fields header rate (replicate (length out) 0) =
      Some (fixed_fields header rate @ replicate (length out - 18) 0)"
    using assms(3) by (intro write_fixed_fields_zeroed) simp
  moreover have "write_channel_mapping header
      (fixed_fields header rate @ replicate (length out - 18) 0) =
      Some (19, fixed_fields header rate @ replicate (length out - 18) 0)"
    using assms(1,3) by (intro write_channel_mapping_few length_fixed_fields) simp_all
  ultimately show ?thesis
    using assms(2) by (simp add: WriteOpusHeader_def kOpusHeaderStreamMapOffset_def)
qed

lemma WriteOpusHeader_many:
  assumes "3 \<le> channels header" "channels header \<le> 8"
    and "21 + nat (channels header) \<le> length out"
  shows "WriteOpusHeader header rate out =
         Some (22 + channels header,
               fixed_fields header rate @ [1, word_of_int (channels header), 0] @
               channel_map_row (channels header) @
               replicate (length out - 21 - nat (channels header)) 0)"
proof -
  have sz: "size_t_of_int (21 + channels header) = 21 + channels header"
    using assms(1,2) by (simp add: size_t_of_int_def)
  have "write_fixed_fields header rate (replicate (length out) 0) =
      Some (fixed_fields header rate @ replicate (length out - 18) 0)"
    using assms(3) by (intro write_fixed_fields_zeroed) simp
  moreover have "write_channel_mapping header
      (fixed_fields header rate @ replicate (length out - 18) 0) =
      Some (22 + channels header,
            fixed_fields header rate @ [1, word_of_int (channels header), 0] @
            channel_map_row (channels header) @
            replicate (length out - 18 - 3 - nat (channels header)) 0)"
    using assms by (intro write_channel_mapping_many length_fixed_fields) simp_all
  moreover have "length out - 18 - 3 - nat (channels header) = length out - 21 - nat (channels header)"
    by simp
  ultimately show ?thesis
    using assms by (simp add: WriteOpusHeader_def kOpusHeaderStreamMapOffset_def sz)
qed

lemma write_channel_mapping_Some:
  assumes "write_channel_mapping header buf = Some (n, buf')"
  shows "if 2 < channels header then channels header \<le> 8 \<and> 21 \<le> length buf
         else 19 \<le> length buf"
proof (cases "2 < channels header")
  case True
  with assms obtain o1 o2 o3 o4 where
    s1: "store_byte kOpusHeaderChannelMappingOffset 1 buf = Some o1" and
    s2: "store_byte kOpusHeaderNumStreamsOffset (word_of_int (channels header)) o1 = Some o2" and
    s3: "store_byte kOpusHeaderNumCoupledStreamsOffset 0 o2 = Some o3" and
    s4: "write_stream_map_loop (channels header) 0 o3 = Some o4"
    unfolding write_channel_mapping_def by (auto simp: Option.bind_eq_Some_conv)
  have "channels header \<le> 8"
    using s4 write_stream_map_loop_outside [of "channels header" o3] by (cases "8 < channels header") auto
  moreover have "21 \<le> length buf"
    using store_byte_Some [OF s1] store_byte_Some [OF s2] store_byte_Some [OF s3]
    by (simp add: kOpusHeaderNumCoupledStreamsOffset_def)
  ultimately show ?thesis using True by simp
next
  case False
  with assms obtain o1 where
    s1: "store_byte kOpusHeaderChannelMappingOffset 0 buf = Some o1"
    unfolding write_channel_mapping_def by (auto simp: Option.bind_eq_Some_conv)
  show ?thesis
    using False store_byte_Some [OF s1] by (simp add: kOpusHeaderChannelMappingOffset_def)
qed

lemma WriteOpusHeader_success:
  assumes "WriteOpusHeader header rate out = Some (n, out')" "n \<noteq> - 1"
  shows "size_t_of_int (21 + channels header) \<le> int (length out) \<and>
         (if 2 < channels header then channels header \<le> 8 else 19 \<le> length out)"
proof -
  have big: "size_t_of_int (21 + channels header) \<le> int (length out)"
    using assms by (cases "int (length out) < size_t_of_int (21 + channels header)")
      (simp_all add: WriteOpusHeader_too_small)
  with assms(1) obtain o1 where
    f: "write_fixed_fields header rate (replicate (length out) 0) = Some o1" and
    m: "write_channel_mapping header o1 = Some (n, out')"
    by (auto simp: WriteOpusHeader_def kOpusHeaderStreamMapOffset_def Option.bind_eq_Some_conv)
  from write_fixed_fields_Some [OF f] have len: "length o1 = length out" by simp
  from write_channel_mapping_Some [OF m] len big show ?thesis
    by (simp split: if_splits)
qed

lemma uint_channel_byte:
  "0 \<le> n \<Longrightarrow> n \<le> 8 \<Longrightarrow> uint (word_of_int n :: byte) = n"
  by (simp add: uint_word_of_int)

lemma channel_map_row_4: "channel_map_row 4 = [0, 1, 2, 3]"
  by (simp add: channel_map_row_def kOpusChannelMap_def)

lemma channel_map_row_6: "channel_map_row 6 = [0, 4, 1, 2, 3, 5]"
  by (simp add: channel_map_row_def kOpusChannelMap_def)

lemma fixed_fields_stereo:
  "fixed_fields stereo_header 48000 = OpusHead @ [1, 2, 0x38, 0x01, 0x80, 0xBB, 0, 0, 0xFB, 0xFF]"
  by (simp add: fixed_fields_def stereo_header_def bytes_of_16_def bytes_of_32_def)

lemma fixed_fields_channels_update:
  "fixed_fields (header\<lparr>channels := n\<rparr>) rate =
     (fixed_fields header rate)[9 := word_of_int n]"
  by (simp add: fixed_fields_def OpusHead_def)

lemma WriteOpusHeader_stereo:
  "WriteOpusHeader stereo_header 48000 (replicate 23 0xAA) = Some (19, stereo_bytes @ replicate 4 0)"
proof -
  have "WriteOpusHeader stereo_header 48000 (replicate 23 0xAA) =
      Some (19, fixed_fields stereo_header 48000 @ replicate (length (replicate 23 (0xAA::byte)) - 18) 0)"
    by (rule WriteOpusHeader_few) (simp_all add: stereo_header_def size_t_of_int_def)
  also have "fixed_fields stereo_header 48000 @ replicate (length (replicate 23 (0xAA::byte)) - 18) 0 =
      stereo_bytes @ replicate 4 0"
    by (simp add: fixed_fields_stereo stereo_bytes_def numeral_eq_Suc)
  finally show ?thesis .
qed

lemma WriteOpusHeader_quad:
  "WriteOpusHeader quad_header 48000 (replicate 25 0xAA) =
     Some (26, OpusHead @ [1, 4, 0x38, 0x01, 0x80, 0xBB, 0, 0, 0xFB, 0xFF, 1, 4, 0, 0, 1, 2, 3])"
proof -
  have "WriteOpusHeader quad_header 48000 (replicate 25 0xAA) =
      Some (22 + channels quad_header,
        fixed_fields quad_header 48000 @ [1, word_of_int (channels quad_header), 0] @
        channel_map_row (channels quad_header) @
        replicate (length (replicate 25 (0xAA::byte)) - 21 - nat (channels quad_header)) 0)"
    by (rule WriteOpusHeader_many) (simp_all add: quad_header_def stereo_header_def)
  moreover have "channels quad_header = 4"
    by (simp add: quad_header_def)
  moreover have "fixed_fields quad_header 48000 =
      OpusHead @ [1, 4, 0x38, 0x01, 0x80, 0xBB, 0, 0, 0xFB, 0xFF]"
    by (simp add: quad_header_def fixed_fields_channels_update fixed_fields_stereo OpusHead_def)
  ultimately show ?thesis
    by (simp add: channel_map_row_4)
qed

subsection \<open>Auxiliary facts: reading back what was written\<close>

lemma le16_roundtrip:
  "ucast (ucast w :: byte) OR push_bit 8 (ucast (ucast (drop_bit 8 w) :: byte)) = (w :: 16 word)"
  by (rule bit_word_eqI) (auto simp: bit_simps)

lemma fixed_fields_nth:
  "fixed_fields header rate ! 9 = word_of_int (channels header)"
  "fixed_fields header rate ! 10 = ucast (skip_samples header)"
  "fixed_fields header rate ! 11 = ucast (drop_bit 8 (skip_samples header))"
  "fixed_fields header rate ! 16 = ucast (gain_db header)"
  "fixed_fields header rate ! 17 = ucast (drop_bit 8 (gain_db header))"
  by (simp_all add: fixed_fields_def OpusHead_def bytes_of_16_def bytes_of_32_def)

lemma written_family_zero:
  assumes "1 \<le> m" "19 \<le> n"
  shows "take n (fixed_fields header rate @ replicate m 0) ! 18 = 0"
  using assms by (simp add: nth_append length_fixed_fields)

lemma ParseOpusHeader_default_layout:
  assumes "kOpusHeaderSize \<le> length d" and "uint (d ! 9) = c" and "1 \<le> c" and "c \<le> 2"
    and "ReadLE16 d 10 = s" and "ReadLE16 d 16 = g" and "d ! 18 = 0"
  shows "ParseOpusHeader d parsed =
      (True,
       parsed\<lparr>channels := c, skip_samples := s, gain_db := g,
              channel_mapping := 0, num_streams := 1,
              num_coupled := (if 1 < c then 1 else 0),
              stream_map := (stream_map parsed)[0 := 0, 1 := 1]\<rparr>)"
  using assms
  by (simp add: ParseOpusHeader_def ParseOpusHeader_exit_def Let_def opus_constants)

lemma write_channel_mapping_overrun:
  assumes "8 < channels header"
  shows "write_channel_mapping header buf = None"
proof (cases "write_channel_mapping header buf")
  case None
  then show ?thesis .
next
  case (Some r)
  obtain n buf' where "r = (n, buf')" by (cases r)
  with Some write_channel_mapping_Some [of header buf n buf'] assms
  show ?thesis by simp
qed

lemma WriteOpusHeader_table_overrun:
  assumes "8 < channels header"
    and "size_t_of_int (21 + channels header) \<le> int (length out)"
  shows "WriteOpusHeader header rate out = None"
proof (cases "write_fixed_fields header rate (replicate (length out) 0)")
  case None
  with assms(2) show ?thesis
    by (simp add: WriteOpusHeader_def kOpusHeaderStreamMapOffset_def)
next
  case (Some o1)
  with assms(2) write_channel_mapping_overrun [OF assms(1), of o1] show ?thesis
    by (simp add: WriteOpusHeader_def kOpusHeaderStreamMapOffset_def)
qed

subsection \<open>The explicit mapping above two channels\<close>

text \<open>
  Claim C7. For every header with 3 to 8 channels and an output buffer of at least 21
  bytes more than channels, the call succeeds and leaves 1 in the mapping family byte
  (offset 18), the channel count in the stream count byte (offset 19), 0 in the coupled
  stream count byte (offset 20), and from offset 21 on, as many bytes as channels, the
  row of the channel mapping table for that channel count; for 4 channels these are
  0 1 2 3, for 6 channels 0 4 1 2 3 5.
\<close>

theorem WriteOpusHeader_explicit_mapping:
  assumes "3 \<le> channels header" and "channels header \<le> kMaxChannels"
    and "int kOpusHeaderStreamMapOffset + channels header \<le> int (length output)"
  shows "\<exists>n output'.
    WriteOpusHeader header input_sample_rate output = Some (n, output') \<and> n \<noteq> - 1 \<and>
    output' ! kOpusHeaderChannelMappingOffset = 1 \<and>
    uint (output' ! kOpusHeaderNumStreamsOffset) = channels header \<and>
    output' ! kOpusHeaderNumCoupledStreamsOffset = 0 \<and>
    take (nat (channels header)) (drop kOpusHeaderStreamMapOffset output') =
      take (nat (channels header)) (kOpusChannelMap ! nat (channels header - 1)) \<and>
    (channels header = 4 \<longrightarrow> take 4 (drop kOpusHeaderStreamMapOffset output') = [0, 1, 2, 3]) \<and>
    (channels header = 6 \<longrightarrow>
       take 6 (drop kOpusHeaderStreamMapOffset output') = [0, 4, 1, 2, 3, 5])"
proof -
  let ?n = "channels header"
  let ?pre = "fixed_fields header input_sample_rate"
  let ?rest = "replicate (length output - 21 - nat ?n) (0::byte)"
  let ?out = "?pre @ [1, word_of_int ?n, 0] @ channel_map_row ?n @ ?rest"
  have le8: "?n \<le> 8" using assms(2) by (simp add: kMaxChannels_def)
  have fit: "21 + nat ?n \<le> length output"
    using assms(1,3) by (simp add: kOpusHeaderStreamMapOffset_def)
  have w: "WriteOpusHeader header input_sample_rate output = Some (22 + ?n, ?out)"
    using assms(1) le8 fit by (rule WriteOpusHeader_many)
  have lp: "length ?pre = 18" by (rule length_fixed_fields)
  have lr: "length (channel_map_row ?n) = nat ?n"
    by (rule channel_map_row_loop) (use assms(1) le8 in simp_all)
  have b18: "?out ! 18 = 1" and b19: "?out ! 19 = word_of_int ?n" and b20: "?out ! 20 = 0"
    using lp by (simp_all add: nth_append)
  have dr: "drop 21 ?out = channel_map_row ?n @ ?rest"
    using lp by simp
  have tk: "take (nat ?n) (drop 21 ?out) = channel_map_row ?n"
    unfolding dr using lr by simp
  have u: "uint (word_of_int ?n :: byte) = ?n"
    using assms(1) le8 by (intro uint_channel_byte) simp_all
  have "22 + ?n \<noteq> - 1" using assms(1) by simp
  moreover have "?out ! kOpusHeaderChannelMappingOffset = 1"
    unfolding kOpusHeaderChannelMappingOffset_def by (rule b18)
  moreover have "uint (?out ! kOpusHeaderNumStreamsOffset) = ?n"
    unfolding kOpusHeaderNumStreamsOffset_def b19 by (rule u)
  moreover have "?out ! kOpusHeaderNumCoupledStreamsOffset = 0"
    unfolding kOpusHeaderNumCoupledStreamsOffset_def by (rule b20)
  moreover have "take (nat ?n) (drop kOpusHeaderStreamMapOffset ?out) =
      take (nat ?n) (kOpusChannelMap ! nat (?n - 1))"
    unfolding kOpusHeaderStreamMapOffset_def tk by (simp add: channel_map_row_def)
  moreover have "?n = 4 \<longrightarrow> take 4 (drop kOpusHeaderStreamMapOffset ?out) = [0, 1, 2, 3]"
    using tk by (auto simp: kOpusHeaderStreamMapOffset_def channel_map_row_4)
  moreover have "?n = 6 \<longrightarrow> take 6 (drop kOpusHeaderStreamMapOffset ?out) = [0, 4, 1, 2, 3, 5]"
    using tk by (auto simp: kOpusHeaderStreamMapOffset_def channel_map_row_6)
  ultimately show ?thesis
    using w by blast
qed

theorem WriteOpusHeader_explicit_mapping_witness:
  "3 \<le> channels quad_header \<and> channels quad_header \<le> kMaxChannels \<and>
   int kOpusHeaderStreamMapOffset + channels quad_header \<le> int (length (replicate 25 (0xAA::byte))) \<and>
   (\<exists>n output'.
      WriteOpusHeader quad_header 48000 (replicate 25 0xAA) = Some (n, output') \<and>
      output' ! 18 = 1 \<and> output' ! 19 = 4 \<and> output' ! 20 = 0 \<and>
      take 4 (drop 21 output') = [0, 1, 2, 3])"
proof -
  have h: "3 \<le> channels quad_header" "channels quad_header \<le> kMaxChannels"
    "int kOpusHeaderStreamMapOffset + channels quad_header \<le> int (length (replicate 25 (0xAA::byte)))"
    by (simp_all add: quad_header_def kMaxChannels_def kOpusHeaderStreamMapOffset_def)
  have c: "channels quad_header = 4" by (simp add: quad_header_def)
  from WriteOpusHeader_explicit_mapping [OF h, of 48000]
  obtain n output' where
    w: "WriteOpusHeader quad_header 48000 (replicate 25 0xAA) = Some (n, output')" and
    p: "output' ! kOpusHeaderChannelMappingOffset = 1"
       "uint (output' ! kOpusHeaderNumStreamsOffset) = channels quad_header"
       "output' ! kOpusHeaderNumCoupledStreamsOffset = 0"
       "channels quad_header = 4 \<longrightarrow> take 4 (drop kOpusHeaderStreamMapOffset output') = [0, 1, 2, 3]"
    by blast
  from p(2) have "uint (output' ! 19) = uint (4 :: byte)"
    by (simp add: c kOpusHeaderNumStreamsOffset_def)
  then have "output' ! 19 = 4" by (simp only: word_uint_eq_iff)
  with w p c h show ?thesis
    by (auto simp: opus_constants)
qed

subsection \<open>The capacity check\<close>

text \<open>
  Claim C8. For every header with 1 to 8 channels, \<^verbatim>\<open>WriteOpusHeader\<close> into a buffer of
  exactly 21 bytes more than channels succeeds, and into a buffer one byte smaller it
  returns \<open>-1\<close> (buffer too small) and leaves every byte of the buffer as it was.
\<close>

theorem WriteOpusHeader_exact_capacity:
  assumes "1 \<le> channels header" and "channels header \<le> kMaxChannels"
  shows "(int (length output) = int kOpusHeaderStreamMapOffset + channels header \<longrightarrow>
           (\<exists>n output'. WriteOpusHeader header input_sample_rate output = Some (n, output') \<and>
              0 < n \<and> length output' = length output)) \<and>
         (int (length output) = int kOpusHeaderStreamMapOffset + channels header - 1 \<longrightarrow>
           WriteOpusHeader header input_sample_rate output = Some (- 1, output))"
proof (intro conjI impI)
  let ?n = "channels header"
  have le8: "?n \<le> 8" using assms(2) by (simp add: kMaxChannels_def)
  have sz: "size_t_of_int (21 + ?n) = 21 + ?n"
    using assms(1) le8 by (simp add: size_t_of_int_def)
  {
    assume len: "int (length output) = int kOpusHeaderStreamMapOffset + ?n"
    then have l: "length output = 21 + nat ?n"
      using assms(1) by (simp add: kOpusHeaderStreamMapOffset_def)
    show "\<exists>n output'. WriteOpusHeader header input_sample_rate output = Some (n, output') \<and>
        0 < n \<and> length output' = length output"
    proof (cases "?n \<le> 2")
      case True
      have "WriteOpusHeader header input_sample_rate output =
          Some (19, fixed_fields header input_sample_rate @ replicate (length output - 18) 0)"
        using True assms(1) l by (intro WriteOpusHeader_few) (simp_all add: sz)
      moreover have "length (fixed_fields header input_sample_rate @
          replicate (length output - 18) (0::byte)) = length output"
        using l by (simp add: length_fixed_fields)
      ultimately show ?thesis by simp
    next
      case False
      then have "3 \<le> ?n" by simp
      then have "WriteOpusHeader header input_sample_rate output =
          Some (22 + ?n, fixed_fields header input_sample_rate @ [1, word_of_int ?n, 0] @
             channel_map_row ?n @ replicate (length output - 21 - nat ?n) 0)"
        using le8 l by (intro WriteOpusHeader_many) simp_all
      moreover have "length (fixed_fields header input_sample_rate @ [1, word_of_int ?n, 0] @
             channel_map_row ?n @ replicate (length output - 21 - nat ?n) (0::byte)) = length output"
        using l assms(1) le8 by (simp add: length_fixed_fields channel_map_row_loop(2))
      ultimately show ?thesis using assms(1) by simp
    qed
  }
  {
    assume "int (length output) = int kOpusHeaderStreamMapOffset + ?n - 1"
    then have "int (length output) < size_t_of_int (21 + ?n)"
      by (simp add: sz kOpusHeaderStreamMapOffset_def)
    then show "WriteOpusHeader header input_sample_rate output = Some (- 1, output)"
      by (rule WriteOpusHeader_too_small)
  }
qed

theorem WriteOpusHeader_exact_capacity_witness:
  "1 \<le> channels quad_header \<and> channels quad_header \<le> kMaxChannels \<and>
   (\<exists>output'. WriteOpusHeader quad_header 48000 (replicate 25 0xAA) = Some (26, output')) \<and>
   WriteOpusHeader quad_header 48000 (replicate 24 0xAA) = Some (- 1, replicate 24 0xAA)"
proof -
  have h: "1 \<le> channels quad_header" "channels quad_header \<le> kMaxChannels"
    by (simp_all add: quad_header_def kMaxChannels_def)
  have "int (length (replicate 24 (0xAA::byte))) =
      int kOpusHeaderStreamMapOffset + channels quad_header - 1"
    by (simp add: quad_header_def kOpusHeaderStreamMapOffset_def)
  with WriteOpusHeader_exact_capacity [OF h, of "replicate 24 0xAA" 48000]
  have "WriteOpusHeader quad_header 48000 (replicate 24 0xAA) = Some (- 1, replicate 24 0xAA)"
    by blast
  with h WriteOpusHeader_quad show ?thesis by simp
qed

subsection \<open>The bytes no field is written to\<close>

text \<open>
  Claim C9. Every successful call of \<^verbatim>\<open>WriteOpusHeader\<close> (a call that returns something
  other than \<open>-1\<close>) zeroes the whole output buffer before it writes the fields: the
  buffer keeps its length, every byte from offset 21 + channels on (above two channels)
  or from offset 19 on (otherwise, offsets 19 and 20 included) is 0 up to the end of the
  buffer, and the result is the one the call gives on a buffer of that length that was
  all zero before.
\<close>

theorem WriteOpusHeader_zeroes_whole_buffer:
  assumes "WriteOpusHeader header input_sample_rate output = Some (n, output')"
    and "n \<noteq> - 1"
  shows "length output' = length output \<and>
    (\<forall>k. k < length output \<and>
         (if 2 < channels header then int kOpusHeaderStreamMapOffset + channels header
          else int kOpusHeaderSize) \<le> int k \<longrightarrow> output' ! k = 0) \<and>
    WriteOpusHeader header input_sample_rate (replicate (length output) 0) = Some (n, output')"
proof -
  let ?c = "channels header"
  let ?pre = "fixed_fields header input_sample_rate"
  note s = WriteOpusHeader_success [OF assms]
  have lp: "length ?pre = 18" by (rule length_fixed_fields)
  show ?thesis
  proof (cases "2 < ?c")
    case True
    with s have c: "3 \<le> ?c" "?c \<le> 8" by simp_all
    then have "size_t_of_int (21 + ?c) = 21 + ?c" by (simp add: size_t_of_int_def)
    with s c have fit: "21 + nat ?c \<le> length output" by simp
    let ?out = "?pre @ [1, word_of_int ?c, 0] @ channel_map_row ?c @
                replicate (length output - 21 - nat ?c) (0::byte)"
    have lr: "length (channel_map_row ?c) = nat ?c"
      by (rule channel_map_row_loop) (use c in simp_all)
    have w: "WriteOpusHeader header input_sample_rate output = Some (22 + ?c, ?out)"
      using c fit by (rule WriteOpusHeader_many)
    have fit0: "21 + nat ?c \<le> length (replicate (length output) (0::byte))"
      using fit by simp
    have w0: "WriteOpusHeader header input_sample_rate (replicate (length output) 0) =
        Some (22 + ?c, ?out)"
      using WriteOpusHeader_many [OF c fit0, of input_sample_rate] by simp
    have eq: "n = 22 + ?c" "output' = ?out"
      using assms(1) w by simp_all
    have len: "length ?out = length output"
      using fit lp lr by simp
    have zero: "?out ! k = 0" if "k < length output" "21 + ?c \<le> int k" for k
    proof -
      have k: "21 + nat ?c \<le> k" using that(2) c by arith
      have "?out = (?pre @ [1, word_of_int ?c, 0] @ channel_map_row ?c) @
                replicate (length output - 21 - nat ?c) (0::byte)"
        by simp
      moreover have "length (?pre @ [1, word_of_int ?c, 0] @ channel_map_row ?c) = 21 + nat ?c"
        using lp lr by simp
      ultimately have "?out ! k = replicate (length output - 21 - nat ?c) (0::byte) ! (k - (21 + nat ?c))"
        using k by (metis nth_append not_less)
      also have "\<dots> = 0"
        using that(1) k by simp
      finally show ?thesis .
    qed
    show ?thesis
      unfolding eq using len zero w0 True
      by (simp add: kOpusHeaderStreamMapOffset_def)
  next
    case False
    with s have c: "?c \<le> 2" and fit: "19 \<le> length output"
      and sz: "size_t_of_int (21 + ?c) \<le> int (length output)" by simp_all
    let ?out = "?pre @ replicate (length output - 18) (0::byte)"
    have w: "WriteOpusHeader header input_sample_rate output = Some (19, ?out)"
      using c sz fit by (rule WriteOpusHeader_few)
    have w0: "WriteOpusHeader header input_sample_rate (replicate (length output) 0) =
        Some (19, ?out)"
      using WriteOpusHeader_few [of header "replicate (length output) 0" input_sample_rate] c sz fit
      by simp
    have eq: "n = 19" "output' = ?out"
      using assms(1) w by simp_all
    have len: "length ?out = length output"
      using fit lp by simp
    have zero: "?out ! k = 0" if "k < length output" "19 \<le> int k" for k
      using that lp by (simp add: nth_append)
    show ?thesis
      unfolding eq using len zero w0 False
      by (simp add: kOpusHeaderSize_def)
  qed
qed

theorem WriteOpusHeader_zeroes_whole_buffer_witness:
  "WriteOpusHeader stereo_header 48000 (replicate 23 0xAA) = Some (19, stereo_bytes @ replicate 4 0) \<and>
   (19::int) \<noteq> - 1 \<and>
   length (stereo_bytes @ replicate 4 0) = length (replicate 23 (0xAA::byte)) \<and>
   (stereo_bytes @ replicate 4 0) ! 19 = 0 \<and>
   (stereo_bytes @ replicate 4 0) ! 20 = 0 \<and>
   (stereo_bytes @ replicate 4 0) ! 22 = 0 \<and>
   WriteOpusHeader stereo_header 48000 (replicate 23 0) = Some (19, stereo_bytes @ replicate 4 0)"
proof -
  have ne: "(19::int) \<noteq> - 1" by simp
  note z = WriteOpusHeader_zeroes_whole_buffer [OF WriteOpusHeader_stereo ne]
  have c: "\<not> 2 < channels stereo_header" by (simp add: stereo_header_def)
  from z have all: "\<And>k. k < 23 \<Longrightarrow> 19 \<le> k \<Longrightarrow> (stereo_bytes @ replicate 4 0) ! k = 0"
    by (simp add: c kOpusHeaderSize_def)
  have "(stereo_bytes @ replicate 4 0) ! 19 = 0" "(stereo_bytes @ replicate 4 0) ! 20 = 0"
    "(stereo_bytes @ replicate 4 0) ! 22 = 0"
    by (rule all; simp)+
  with z WriteOpusHeader_stereo ne show ?thesis by simp
qed

subsection \<open>Writing, then parsing, one or two channels\<close>

text \<open>
  Claim C5. For every header with 1 or 2 channels, every input sample rate and every
  output buffer of at least 21 bytes more than channels, the call writes 19 bytes, and
  parsing what it wrote (the first 19 bytes, or any longer prefix up to the whole
  buffer) succeeds and gives back the channel count, the pre-skip and the gain exactly,
  the gain also as a signed value, with 1 stream and 1 coupled stream for 2 channels,
  none for 1.
\<close>

theorem write_then_parse_mono_stereo:
  assumes "channels header = 1 \<or> channels header = 2"
    and "int kOpusHeaderStreamMapOffset + channels header \<le> int (length output)"
    and "kOpusHeaderSize \<le> n"
  shows "\<exists>bytes.
    WriteOpusHeader header input_sample_rate output = Some (19, bytes) \<and>
    fst (ParseOpusHeader (take n bytes) parsed) \<and>
    channels (snd (ParseOpusHeader (take n bytes) parsed)) = channels header \<and>
    skip_samples (snd (ParseOpusHeader (take n bytes) parsed)) = skip_samples header \<and>
    gain_db (snd (ParseOpusHeader (take n bytes) parsed)) = gain_db header \<and>
    sint (gain_db (snd (ParseOpusHeader (take n bytes) parsed))) = sint (gain_db header) \<and>
    num_streams (snd (ParseOpusHeader (take n bytes) parsed)) = 1 \<and>
    num_coupled (snd (ParseOpusHeader (take n bytes) parsed)) =
      (if 1 < channels header then 1 else 0)"
proof -
  let ?c = "channels header"
  let ?m = "length output - 18"
  let ?bytes = "fixed_fields header input_sample_rate @ replicate ?m (0::byte)"
  let ?d = "take n ?bytes"
  have c: "1 \<le> ?c" "?c \<le> 2" using assms(1) by auto
  have len: "22 \<le> length output"
    using assms(2) c by (simp add: kOpusHeaderStreamMapOffset_def)
  have n: "19 \<le> n" using assms(3) by (simp add: kOpusHeaderSize_def)
  have w: "WriteOpusHeader header input_sample_rate output = Some (19, ?bytes)"
    using c len assms(2)
    by (intro WriteOpusHeader_few) (simp_all add: size_t_of_int_def kOpusHeaderStreamMapOffset_def)
  have ld: "19 \<le> length ?d"
    using len n by (simp add: length_fixed_fields del: take_append)
  have m1: "1 \<le> ?m" using len by simp
  have b9: "?d ! 9 = word_of_int ?c"
    and b10: "?d ! 10 = ucast (skip_samples header)"
    and b11: "?d ! 11 = ucast (drop_bit 8 (skip_samples header))"
    and b16: "?d ! 16 = ucast (gain_db header)"
    and b17: "?d ! 17 = ucast (drop_bit 8 (gain_db header))"
    using n by (simp_all add: nth_append length_fixed_fields fixed_fields_nth del: take_append)
  have b18: "?d ! 18 = 0"
    using m1 n by (rule written_family_zero)
  have u: "uint (?d ! 9) = ?c"
    unfolding b9 using c by (intro uint_channel_byte) simp_all
  from second_byte_inside_parser [of ?d] ld
  have inside: "\<not> second_byte_outside ?d 10" "\<not> second_byte_outside ?d 16"
    unfolding kOpusHeaderSize_def by blast+
  have skip: "ReadLE16 ?d 10 = skip_samples header"
    using inside(1) by (simp add: ReadLE16_def b10 b11 le16_roundtrip del: take_append)
  have gain: "ReadLE16 ?d 16 = gain_db header"
    using inside(2) by (simp add: ReadLE16_def b16 b17 le16_roundtrip del: take_append)
  have size: "kOpusHeaderSize \<le> length ?d"
    unfolding kOpusHeaderSize_def by (rule ld)
  have p: "ParseOpusHeader ?d parsed =
      (True,
       parsed\<lparr>channels := ?c, skip_samples := skip_samples header, gain_db := gain_db header,
              channel_mapping := 0, num_streams := 1,
              num_coupled := (if 1 < ?c then 1 else 0),
              stream_map := (stream_map parsed)[0 := 0, 1 := 1]\<rparr>)"
    using size u c skip gain b18 by (rule ParseOpusHeader_default_layout)
  have "fst (ParseOpusHeader ?d parsed) \<and>
    channels (snd (ParseOpusHeader ?d parsed)) = ?c \<and>
    skip_samples (snd (ParseOpusHeader ?d parsed)) = skip_samples header \<and>
    gain_db (snd (ParseOpusHeader ?d parsed)) = gain_db header \<and>
    sint (gain_db (snd (ParseOpusHeader ?d parsed))) = sint (gain_db header) \<and>
    num_streams (snd (ParseOpusHeader ?d parsed)) = 1 \<and>
    num_coupled (snd (ParseOpusHeader ?d parsed)) = (if 1 < ?c then 1 else 0)"
    unfolding p by simp
  with w show ?thesis by blast
qed

theorem write_then_parse_mono_stereo_witness:
  "(channels stereo_header = 1 \<or> channels stereo_header = 2) \<and>
   int kOpusHeaderStreamMapOffset + channels stereo_header \<le> int (length (replicate 23 (0xAA::byte))) \<and>
   kOpusHeaderSize \<le> 19 \<and>
   WriteOpusHeader stereo_header 48000 (replicate 23 0xAA) = Some (19, stereo_bytes @ replicate 4 0) \<and>
   take 19 (stereo_bytes @ replicate 4 0) = stereo_bytes \<and>
   stereo_bytes ! 16 = 0xFB \<and> stereo_bytes ! 17 = 0xFF \<and>
   fst (ParseOpusHeader stereo_bytes blank_header) \<and>
   channels (snd (ParseOpusHeader stereo_bytes blank_header)) = 2 \<and>
   skip_samples (snd (ParseOpusHeader stereo_bytes blank_header)) = 312 \<and>
   sint (gain_db (snd (ParseOpusHeader stereo_bytes blank_header))) = - 5 \<and>
   num_streams (snd (ParseOpusHeader stereo_bytes blank_header)) = 1 \<and>
   num_coupled (snd (ParseOpusHeader stereo_bytes blank_header)) = 1"
proof -
  have h1: "channels stereo_header = 1 \<or> channels stereo_header = 2"
    and h2: "int kOpusHeaderStreamMapOffset + channels stereo_header
               \<le> int (length (replicate 23 (0xAA::byte)))"
    and h3: "kOpusHeaderSize \<le> 19"
    by (simp_all add: stereo_header_def kOpusHeaderStreamMapOffset_def kOpusHeaderSize_def)
  have t: "take 19 (stereo_bytes @ replicate 4 0) = stereo_bytes"
    by (simp add: stereo_bytes_def OpusHead_def)
  have b: "stereo_bytes ! 16 = 0xFB" "stereo_bytes ! 17 = 0xFF"
    by (simp_all add: stereo_bytes_def OpusHead_def)
  have f: "channels stereo_header = 2" "skip_samples stereo_header = 312"
    "sint (gain_db stereo_header) = - 5"
    by (simp_all add: stereo_header_def)
  from write_then_parse_mono_stereo [OF h1 h2 h3, of 48000 blank_header]
  obtain bytes where
    w: "WriteOpusHeader stereo_header 48000 (replicate 23 0xAA) = Some (19, bytes)" and
    p: "fst (ParseOpusHeader (take 19 bytes) blank_header)"
      "channels (snd (ParseOpusHeader (take 19 bytes) blank_header)) = channels stereo_header"
      "skip_samples (snd (ParseOpusHeader (take 19 bytes) blank_header)) = skip_samples stereo_header"
      "sint (gain_db (snd (ParseOpusHeader (take 19 bytes) blank_header))) = sint (gain_db stereo_header)"
      "num_streams (snd (ParseOpusHeader (take 19 bytes) blank_header)) = 1"
      "num_coupled (snd (ParseOpusHeader (take 19 bytes) blank_header)) =
         (if 1 < channels stereo_header then 1 else 0)"
    by blast
  from w have bytes: "bytes = stereo_bytes @ replicate 4 0"
    by (simp add: WriteOpusHeader_stereo)
  from p have "fst (ParseOpusHeader stereo_bytes blank_header) \<and>
      channels (snd (ParseOpusHeader stereo_bytes blank_header)) = 2 \<and>
      skip_samples (snd (ParseOpusHeader stereo_bytes blank_header)) = 312 \<and>
      sint (gain_db (snd (ParseOpusHeader stereo_bytes blank_header))) = - 5 \<and>
      num_streams (snd (ParseOpusHeader stereo_bytes blank_header)) = 1 \<and>
      num_coupled (snd (ParseOpusHeader stereo_bytes blank_header)) = 1"
    unfolding bytes t f by simp
  with h1 h2 h3 t b WriteOpusHeader_stereo show ?thesis
    by blast
qed

subsection \<open>The returned byte count\<close>

text \<open>
  Claim C1 says that a successful call returns 21 + channels above two channels and 19
  otherwise. The code returns \<^verbatim>\<open>kOpusHeaderStreamMapOffset + header.channels + 1\<close> above two
  channels, one more than \<^verbatim>\<open>total_size\<close>, the number of bytes it has checked the buffer
  for and written: for 3 channels and a buffer of 24 bytes the call fills the 24 bytes
  and returns 25.
\<close>

theorem WriteOpusHeader_returns_one_past_written:
  "WriteOpusHeader (stereo_header\<lparr>channels := 3\<rparr>) 48000 (replicate 24 0xAA) =
     Some (25, OpusHead @ [1, 3, 0x38, 0x01, 0x80, 0xBB, 0, 0, 0xFB, 0xFF, 1, 3, 0, 0, 2, 1])"
proof -
  let ?h = "stereo_header\<lparr>channels := 3\<rparr>"
  have "WriteOpusHeader ?h 48000 (replicate 24 0xAA) =
      Some (22 + channels ?h,
        fixed_fields ?h 48000 @ [1, word_of_int (channels ?h), 0] @
        channel_map_row (channels ?h) @
        replicate (length (replicate 24 (0xAA::byte)) - 21 - nat (channels ?h)) 0)"
    by (rule WriteOpusHeader_many) simp_all
  moreover have "fixed_fields ?h 48000 =
      OpusHead @ [1, 3, 0x38, 0x01, 0x80, 0xBB, 0, 0, 0xFB, 0xFF]"
    by (simp add: fixed_fields_channels_update fixed_fields_stereo OpusHead_def)
  moreover have "channel_map_row 3 = [0, 2, 1]"
    by (simp add: channel_map_row_def kOpusChannelMap_def)
  ultimately show ?thesis
    by simp
qed

subsection \<open>Channel counts outside 1 to 8\<close>

text \<open>
  Claim C2 says that \<^verbatim>\<open>WriteOpusHeader\<close> rejects a header whose channel count is outside
  1..8 before it reads the channel mapping table. The code has no such check: for 9
  channels and a buffer of 30 bytes the size test passes and the first round of the loop
  reads \<^verbatim>\<open>kOpusChannelMap[8][0]\<close>, outside the table of 8 rows; for 0 channels and a buffer
  of 21 bytes the call is not rejected either and returns 19.
\<close>

theorem WriteOpusHeader_nine_channels_overruns_table:
  "WriteOpusHeader (stereo_header\<lparr>channels := 9\<rparr>) 48000 (replicate 30 0xAA) = None \<and>
   kOpusChannelMap_at (9 - 1) 0 = None \<and>
   WriteOpusHeader (stereo_header\<lparr>channels := 0\<rparr>) 48000 (replicate 21 0xAA) =
     Some (19, OpusHead @ [1, 0, 0x38, 0x01, 0x80, 0xBB, 0, 0, 0xFB, 0xFF, 0, 0, 0])"
proof -
  have a: "WriteOpusHeader (stereo_header\<lparr>channels := 9\<rparr>) 48000 (replicate 30 0xAA) = None"
    by (rule WriteOpusHeader_table_overrun) (simp_all add: size_t_of_int_def)
  have b: "kOpusChannelMap_at (9 - 1) 0 = None"
    by (simp add: kOpusChannelMap_at_def kMaxChannels_def)
  let ?h = "stereo_header\<lparr>channels := 0\<rparr>"
  have "WriteOpusHeader ?h 48000 (replicate 21 0xAA) =
      Some (19, fixed_fields ?h 48000 @ replicate (length (replicate 21 (0xAA::byte)) - 18) 0)"
    by (rule WriteOpusHeader_few) (simp_all add: size_t_of_int_def)
  moreover have "fixed_fields ?h 48000 = OpusHead @ [1, 0, 0x38, 0x01, 0x80, 0xBB, 0, 0, 0xFB, 0xFF]"
    by (simp add: fixed_fields_channels_update fixed_fields_stereo OpusHead_def)
  ultimately have c: "WriteOpusHeader ?h 48000 (replicate 21 0xAA) =
      Some (19, OpusHead @ [1, 0, 0x38, 0x01, 0x80, 0xBB, 0, 0, 0xFB, 0xFF, 0, 0, 0])"
    by (simp add: numeral_3_eq_3)
  from a b c show ?thesis by simp
qed

end
